theory Spec2Isabelle
  imports Complex_Main "HOL-Library.AList"
begin

section \<open>Python values and exceptions\<close>

text \<open>
  The values the program handles dynamically (parsed JSON, the entries of a candidate
  dictionary) are \<open>None\<close>, booleans, integers, strings, lists and dictionaries with
  string keys. A dictionary is an association list in insertion order. Floating-point
  numbers are left out.
\<close>

datatype pyval =
    PNone
  | PBool bool
  | PInt int
  | PStr string
  | PList "pyval list"
  | PDict "(string \<times> pyval) list"

text \<open>An exception raised by the program or by one of the libraries it calls.\<close>

datatype exn =
    OSError
  | PermissionError
  | JSONDecodeError
  | RequestsError
  | HTTPError int
  | PlaywrightTimeout
  | PlaywrightError
  | SolverError
  | AttributeError
  | TypeError
  | MultipleResultsFound
  | OverflowError
  | ProgrammingError
  | SystemExit

section \<open>core/clients.py: CookieStore\<close>

text \<open>
  The state of the cookie file, as \<open>CookieStore.load\<close> can observe it: the path cannot
  be examined (\<open>Path.exists\<close> raises, as it does for a path in a directory that may not
  be searched and for a name that is too long); the path does not exist; it exists but
  opening or reading it raises; it is read but \<open>json.load\<close> raises; or \<open>json.load\<close>
  returns a value.
\<close>

datatype cookie_file =
    Unexaminable exn
  | NoFile
  | Unreadable exn
  | Corrupt exn
  | Stored pyval

text \<open>\<^verbatim>\<open>self.path.exists()\<close>\<close>

fun path_exists :: "cookie_file \<Rightarrow> exn + bool" where
  "path_exists (Unexaminable e) = Inl e"
| "path_exists NoFile = Inr False"
| "path_exists (Unreadable e) = Inr True"
| "path_exists (Corrupt e) = Inr True"
| "path_exists (Stored v) = Inr True"

text \<open>\<^verbatim>\<open>with self.path.open("r", encoding="utf-8") as f: return json.load(f)\<close>\<close>

fun open_and_json_load :: "cookie_file \<Rightarrow> exn + pyval" where
  "open_and_json_load (Unexaminable e) = Inl e"
| "open_and_json_load NoFile = Inl OSError"
| "open_and_json_load (Unreadable e) = Inl e"
| "open_and_json_load (Corrupt e) = Inl e"
| "open_and_json_load (Stored v) = Inr v"

definition default_cookies :: pyval where
  "default_cookies = PDict [(''cookies'', PList []), (''cookie_dict'', PDict [])]"

text \<open>
  \<open>CookieStore.load\<close>: the test \<open>self.path.exists()\<close> stands before the \<open>try\<close> block,
  so what it raises leaves \<open>load\<close>. The \<open>try\<close> block returns the parsed value;
  \<open>except Exception\<close> logs and falls through to the default, as does a path that does not
  exist.
\<close>

definition CookieStore_load :: "cookie_file \<Rightarrow> exn + pyval" where
  "CookieStore_load f =
     (case path_exists f of
        Inl e \<Rightarrow> Inl e
      | Inr True \<Rightarrow>
          (case open_and_json_load f of
             Inr v \<Rightarrow> Inr v
           | Inl e \<Rightarrow> Inr default_cookies)
      | Inr False \<Rightarrow> Inr default_cookies)"

section \<open>core/clients.py: PlaywrightClient\<close>

text \<open>
  What the browser session meets on one call of \<open>PlaywrightClient.get\<close>: whether
  \<open>page.goto\<close> raises, whether each marker element appears before the timeout, the site
  key found by \<open>eval_on_selector\<close> (\<open>None\<close> when the probe raises or finds nothing), the
  configured solving-service credential, what the solving service answers, and the markup
  \<open>page.content()\<close> returns (depending on whether a token was injected).
\<close>

record browser_env =
  goto_raises :: "exn option"
  title_marker :: bool
  catalog_marker :: bool
  site_key :: "string option"
  anticaptcha_key :: "string option"
  solver_answer :: "exn + string option"
  page_content :: "bool \<Rightarrow> string"

text \<open>
  The wait for the listing-title marker is inside \<open>try\<close>; its handler waits for the
  catalog container, and that second wait is not guarded.
\<close>

definition wait_for_items :: "browser_env \<Rightarrow> exn + unit" where
  "wait_for_items env =
     (if title_marker env then Inr ()
      else if catalog_marker env then Inr ()
      else Inl PlaywrightTimeout)"

definition solve_recaptcha_v2 :: "browser_env \<Rightarrow> exn + string option" where
  "solve_recaptcha_v2 env =
     (case anticaptcha_key env of
        None \<Rightarrow> Inr None
      | Some k \<Rightarrow>
          if k = [] then Inr None
          else (case solver_answer env of
                  Inl e \<Rightarrow> Inl e
                | Inr None \<Rightarrow> Inr None
                | Inr (Some tok) \<Rightarrow> if tok \<noteq> [] then Inr (Some tok) else Inr None))"

text \<open>
  \<open>PlaywrightClient.get\<close>, given the cookie file and the page. The stored cookies are
  read with \<open>stored.get("cookies")\<close>, which needs the loaded value to be a dictionary.
  Adding the cookies, scrolling, token injection, saving cookies and writing the debug
  artifacts are each inside a \<open>try\<close> that swallows every exception, so they do not change
  the result; navigation, the wait for the markers and the call of the solving service are
  not.
\<close>

definition PlaywrightClient_get :: "cookie_file \<Rightarrow> browser_env \<Rightarrow> exn + string" where
  "PlaywrightClient_get cookie env =
     (case CookieStore_load cookie of
        Inl e \<Rightarrow> Inl e
      | Inr stored \<Rightarrow>
          (case stored of
             PDict d \<Rightarrow>
               (case goto_raises env of
                  Some e \<Rightarrow> Inl e
                | None \<Rightarrow>
                    (case wait_for_items env of
                       Inl e \<Rightarrow> Inl e
                     | Inr u \<Rightarrow>
                         (case site_key env of
                            None \<Rightarrow> Inr (page_content env False)
                          | Some k \<Rightarrow>
                              if k = [] then Inr (page_content env False)
                              else (case solve_recaptcha_v2 env of
                                      Inl e \<Rightarrow> Inl e
                                    | Inr None \<Rightarrow> Inr (page_content env False)
                                    | Inr (Some tok) \<Rightarrow> Inr (page_content env True)))))
           | other \<Rightarrow> Inl AttributeError))"

section \<open>core/clients.py: CurlClient\<close>

text \<open>
  One call of \<open>session.get\<close> either raises or returns a response, of which the client
  reads the status code and the text. Before it reads the status, the client writes the
  cookies of the session to the cookie file with \<open>CookieStore.save\<close>, outside any \<open>try\<close>:
  what \<open>save\<close> raises (the directory cannot be made, the file cannot be opened for
  writing) leaves \<open>get\<close>. So an attempt has one of three outcomes: the request raises
  (\<open>Failed\<close>); the response comes and the cookies are written (\<open>Responded\<close>); the response
  comes and writing the cookies raises (\<open>Unsaved\<close>). The server, with the cookie file,
  is a function from the attempt number to that outcome; the random jitter drawn at an
  attempt is a function of the attempt number as well. Durations are real numbers, in
  seconds.
\<close>

datatype outcome = Responded int string | Unsaved int string exn | Failed exn

text \<open>
  \<open>CurlClient.__init__\<close> loads the stored cookies into the session: from the dictionary
  under \<open>cookie_dict\<close> when there is a non-empty one, else by iterating over the value
  under \<open>cookies\<close>. Setting a cookie is inside \<open>try\<close>; reading the loaded value with \<open>get\<close>
  and iterating are not.
\<close>

definition CurlClient_init :: "cookie_file \<Rightarrow> exn + unit" where
  "CurlClient_init cookie =
     (case CookieStore_load cookie of
        Inl e \<Rightarrow> Inl e
      | Inr stored \<Rightarrow>
          (case stored of
             PDict d \<Rightarrow>
               (case map_of d ''cookie_dict'' of
                  Some (PDict (c # cs)) \<Rightarrow> Inr ()
                | other \<Rightarrow>
                    (case map_of d ''cookies'' of
                       None \<Rightarrow> Inr ()
                     | Some (PList cs) \<Rightarrow> Inr ()
                     | Some (PStr s) \<Rightarrow> Inr ()
                     | Some (PDict kvs) \<Rightarrow> Inr ()
                     | Some other \<Rightarrow> Inl TypeError))
           | other \<Rightarrow> Inl AttributeError))"

text \<open>
  The cookie file after \<^verbatim>\<open>self.cookie_store.save({"cookie_dict": cookie_dict})\<close>: a
  dictionary with the one key \<open>cookie_dict\<close> (the cookies themselves are not modelled).
\<close>

definition saved_by_curl :: cookie_file where
  "saved_by_curl = Stored (PDict [(''cookie_dict'', PDict [])])"

datatype event = Request nat | SaveCookies | Sleep real | Fallback

definition max_attempts :: nat where
  "max_attempts = 5"

text \<open>\<^verbatim>\<open>min(10, 2 ** attempt) + random.uniform(0, 0.5)\<close>, the second summand given.\<close>

definition backoff :: "nat \<Rightarrow> real \<Rightarrow> real" where
  "backoff attempt jitter = real (min 10 (2 ^ attempt)) + jitter"

text \<open>
  \<open>Response.raise_for_status\<close> of the HTTP library raises unless the status code is in
  the range from 200 up to (excluding) 400.
\<close>

definition raise_for_status :: "int \<Rightarrow> exn + unit" where
  "raise_for_status status = (if 200 \<le> status \<and> status < 400 then Inr () else Inl (HTTPError status))"

text \<open>
  The body of \<^verbatim>\<open>for attempt in range(1, max_attempts + 1)\<close>, by recursion on the attempts
  still to come; when the loop runs out, the client falls back to the browser. The result
  is the trace of what was done and what the call returns or raises.
\<close>

fun attempts :: "(nat \<Rightarrow> outcome) \<Rightarrow> (nat \<Rightarrow> real) \<Rightarrow> browser_env \<Rightarrow> nat list
    \<Rightarrow> event list \<times> (exn + string)" where
  "attempts server jitter env [] = ([Fallback], PlaywrightClient_get saved_by_curl env)"
| "attempts server jitter env (attempt # rest) =
     (case server attempt of
        Failed e \<Rightarrow> ([Request attempt], Inl e)
      | Unsaved status body e \<Rightarrow> ([Request attempt], Inl e)
      | Responded status body \<Rightarrow>
          if status = 200 \<or> status = 201 then ([Request attempt, SaveCookies], Inr body)
          else if status = 403 \<or> status = 429 \<or> status = 503 then
            (case attempts server jitter env rest of
               (tr, res) \<Rightarrow>
                 (Request attempt # SaveCookies # Sleep (backoff attempt (jitter attempt)) # tr, res))
          else (case raise_for_status status of
                  Inl e \<Rightarrow> ([Request attempt, SaveCookies], Inl e)
                | Inr u \<Rightarrow> ([Request attempt, SaveCookies], Inr body)))"

definition CurlClient_get :: "(nat \<Rightarrow> outcome) \<Rightarrow> (nat \<Rightarrow> real) \<Rightarrow> browser_env
    \<Rightarrow> event list \<times> (exn + string)" where
  "CurlClient_get server jitter env = attempts server jitter env [1..<max_attempts + 1]"

text \<open>Reading a trace.\<close>

fun requests :: "event list \<Rightarrow> nat list" where
  "requests [] = []"
| "requests (Request n # tr) = n # requests tr"
| "requests (e # tr) = requests tr"

fun sleeps :: "event list \<Rightarrow> real list" where
  "sleeps [] = []"
| "sleeps (Sleep d # tr) = d # sleeps tr"
| "sleeps (e # tr) = sleeps tr"

fun fallbacks :: "event list \<Rightarrow> nat" where
  "fallbacks [] = 0"
| "fallbacks (Fallback # tr) = Suc (fallbacks tr)"
| "fallbacks (e # tr) = fallbacks tr"

definition success_status :: "int \<Rightarrow> bool" where
  "success_status status = (status = 200 \<or> status = 201)"

definition retryable_status :: "int \<Rightarrow> bool" where
  "retryable_status status = (status = 403 \<or> status = 429 \<or> status = 503)"

fun retryable :: "outcome \<Rightarrow> bool" where
  "retryable (Responded status body) = retryable_status status"
| "retryable (Unsaved status body e) = False"
| "retryable (Failed e) = False"

text \<open>What one retried attempt leaves in the trace.\<close>

definition retried :: "(nat \<Rightarrow> real) \<Rightarrow> nat \<Rightarrow> event list" where
  "retried jitter attempt = [Request attempt, SaveCookies, Sleep (backoff attempt (jitter attempt))]"


section \<open>Strings and dynamic values\<close>

text \<open>
  A Python string is the list of its characters; a character outside ASCII stands as
  the bytes of its UTF-8 encoding, so that concatenation, equality, prefix and substring
  tests are those of Python. The functions that depend on characters (white space,
  length, lower case) read the encoding. Decimal digits are the ASCII digits.
\<close>

definition startswith :: "string \<Rightarrow> string \<Rightarrow> bool" where
  "startswith s p = (take (length p) s = p)"

fun contains :: "string \<Rightarrow> string \<Rightarrow> bool" where
  "contains [] sub = (sub = [])"
| "contains (c # cs) sub = (startswith (c # cs) sub \<or> contains cs sub)"

text \<open>\<^verbatim>\<open>s.rstrip("/")\<close>\<close>

definition rstrip_slash :: "string \<Rightarrow> string" where
  "rstrip_slash s = rev (dropWhile (\<lambda>c. c = CHR ''/'') (rev s))"

text \<open>
  The number of bytes of the white-space character a string starts with, 0 when it
  starts with none. White space is what \<open>\s\<close> and \<open>str.strip\<close> take it to be: U+0009 to
  U+000D, U+001C to U+0020, U+0085, U+00A0, U+1680, U+2000 to U+200A, U+2028, U+2029,
  U+202F, U+205F and U+3000.
\<close>

definition ws_len :: "string \<Rightarrow> nat" where
  "ws_len s =
     (case map of_char s :: nat list of
        [] \<Rightarrow> 0
      | x # r \<Rightarrow>
          if (9 \<le> x \<and> x \<le> 13) \<or> (28 \<le> x \<and> x \<le> 32) then 1
          else if x = 0xC2 then
            (case r of [] \<Rightarrow> 0 | y # r' \<Rightarrow> if y = 0x85 \<or> y = 0xA0 then 2 else 0)
          else if x = 0xE1 then (if take 2 r = [0x9A, 0x80] then 3 else 0)
          else if x = 0xE2 then
            (case r of
               [] \<Rightarrow> 0
             | y # r' \<Rightarrow>
                 (case r' of
                    [] \<Rightarrow> 0
                  | z # r'' \<Rightarrow>
                      if y = 0x80 \<and> ((0x80 \<le> z \<and> z \<le> 0x8A) \<or> z = 0xA8 \<or> z = 0xA9 \<or> z = 0xAF)
                      then 3
                      else if y = 0x81 \<and> z = 0x9F then 3 else 0))
          else if x = 0xE3 then (if take 2 r = [0x80, 0x80] then 3 else 0)
          else 0)"

text \<open>The maximal runs of characters that are not white space: \<^verbatim>\<open>text.split()\<close>.\<close>

function split_ws :: "string \<Rightarrow> string \<Rightarrow> string list" where
  "split_ws cur [] = (if cur = [] then [] else [cur])"
| "split_ws cur (c # cs) =
     (if ws_len (c # cs) = 0 then split_ws (cur @ [c]) cs
      else (if cur = [] then [] else [cur]) @ split_ws [] (drop (ws_len (c # cs) - 1) cs))"
  by pat_completeness auto
termination
  by (relation "measure (\<lambda>(cur, s). length s)") auto

fun join :: "string \<Rightarrow> string list \<Rightarrow> string" where
  "join sep [] = []"
| "join sep [x] = x"
| "join sep (x # y # xs) = x @ sep @ join sep (y # xs)"

text \<open>
  \<open>ListingListProcessor._normalize\<close>: every run of white space becomes one space, and
  the ends are stripped.
\<close>

definition normalize :: "string \<Rightarrow> string" where
  "normalize t = (if t = [] then [] else join '' '' (split_ws [] t))"

definition is_digit :: "char \<Rightarrow> bool" where
  "is_digit c = (48 \<le> (of_char c :: nat) \<and> (of_char c :: nat) \<le> 57)"

text \<open>\<open>int(digits)\<close> for a string of decimal digits.\<close>

definition int_of_digits :: "string \<Rightarrow> int" where
  "int_of_digits ds = foldl (\<lambda>n c. 10 * n + (int (of_char c) - 48)) 0 ds"

text \<open>\<open>ListingListProcessor._extract_digits\<close>\<close>

definition extract_digits :: "string \<Rightarrow> int option" where
  "extract_digits t =
     (if t = [] then None
      else (let digits = filter is_digit t in
            if digits = [] then None else Some (int_of_digits digits)))"

text \<open>\<^verbatim>\<open>re.search(r"(\d+)%", text)\<close>: the first run of digits that a percent sign follows.\<close>

fun search_percent :: "string \<Rightarrow> string \<Rightarrow> int option" where
  "search_percent cur [] = None"
| "search_percent cur (c # cs) =
     (if is_digit c then search_percent (cur @ [c]) cs
      else if c = CHR ''%'' \<and> cur \<noteq> [] then Some (int_of_digits cur)
      else search_percent [] cs)"

text \<open>
  \<open>str.lower\<close>, for the ASCII letters and the Cyrillic capitals U+0400 to U+042F; every
  other character is left as it is.
\<close>

fun py_lower :: "string \<Rightarrow> string" where
  "py_lower [] = []"
| "py_lower [c] =
     (if 65 \<le> (of_char c :: nat) \<and> (of_char c :: nat) \<le> 90 then [char_of (of_char c + 32 :: nat)] else [c])"
| "py_lower (c # d # r) =
     (let x = (of_char c :: nat); y = (of_char d :: nat) in
      if 65 \<le> x \<and> x \<le> 90 then char_of (x + 32) # py_lower (d # r)
      else if x = 0xD0 \<and> 0x80 \<le> y \<and> y \<le> 0x8F then CHR 0xD1 # char_of (y + 0x10) # py_lower r
      else if x = 0xD0 \<and> 0x90 \<le> y \<and> y \<le> 0x9F then CHR 0xD0 # char_of (y + 0x20) # py_lower r
      else if x = 0xD0 \<and> 0xA0 \<le> y \<and> y \<le> 0xAF then CHR 0xD1 # char_of (y - 0x20) # py_lower r
      else if 0xC2 \<le> x \<and> x \<le> 0xDF then c # d # py_lower r
      else c # py_lower (d # r))"

function skip_ws :: "string \<Rightarrow> string" where
  "skip_ws s = (if ws_len s = 0 \<or> s = [] then s else skip_ws (drop (ws_len s) s))"
  by pat_completeness auto
termination
  by (relation "measure length") auto

text \<open>The literals of the source that are not ASCII.\<close>

definition kw_bail :: string where
  "kw_bail = [CHR 0xD0, CHR 0x97, CHR 0xD0, CHR 0xB0, CHR 0xD0, CHR 0xBB, CHR 0xD0, CHR 0xBE, CHR 0xD0, CHR 0xB3]"

definition kw_commission :: string where
  "kw_commission = [CHR 0xD0, CHR 0x9A, CHR 0xD0, CHR 0xBE, CHR 0xD0, CHR 0xBC, CHR 0xD0, CHR 0xB8,
     CHR 0xD1, CHR 0x81, CHR 0xD1, CHR 0x81, CHR 0xD0, CHR 0xB8, CHR 0xD1, CHR 0x8F]"

definition kw_no_commission :: string where
  "kw_no_commission = [CHR 0xD0, CHR 0x91, CHR 0xD0, CHR 0xB5, CHR 0xD0, CHR 0xB7, CHR 0x20,
     CHR 0xD0, CHR 0xBA, CHR 0xD0, CHR 0xBE, CHR 0xD0, CHR 0xBC, CHR 0xD0, CHR 0xB8, CHR 0xD1, CHR 0x81,
     CHR 0xD1, CHR 0x81, CHR 0xD0, CHR 0xB8, CHR 0xD0, CHR 0xB8]"

definition kw_services :: string where
  "kw_services = [CHR 0xD0, CHR 0x96, CHR 0xD0, CHR 0x9A, CHR 0xD0, CHR 0xA3]"

definition kw_meters :: string where
  "kw_meters = [CHR 0xD1, CHR 0x81, CHR 0xD1, CHR 0x87, CHR 0xD0, CHR 0xB5, CHR 0xD1, CHR 0x82,
     CHR 0xD1, CHR 0x87, CHR 0xD0, CHR 0xB8, CHR 0xD0, CHR 0xBA, CHR 0xD0, CHR 0xB8]"

definition kw_commission_lower :: string where
  "kw_commission_lower = [CHR 0xD0, CHR 0xBA, CHR 0xD0, CHR 0xBE, CHR 0xD0, CHR 0xBC, CHR 0xD0, CHR 0xB8,
     CHR 0xD1, CHR 0x81, CHR 0xD1, CHR 0x81, CHR 0xD0, CHR 0xB8, CHR 0xD1, CHR 0x8F]"


definition middle_dot :: string where
  "middle_dot = [CHR 0xC2, CHR 0xB7]"

text \<open>
  \<^verbatim>\<open>re.search(r"...\s*(\d+)", text.lower())\<close> with the lower-case commission keyword: the
  first place where the keyword, then any white space, then at least one digit stand.
\<close>

fun search_commission :: "string \<Rightarrow> int option" where
  "search_commission [] = None"
| "search_commission (c # cs) =
     (if startswith (c # cs) kw_commission_lower
         \<and> takeWhile is_digit (skip_ws (drop (length kw_commission_lower) (c # cs))) \<noteq> []
      then Some (int_of_digits (takeWhile is_digit (skip_ws (drop (length kw_commission_lower) (c # cs)))))
      else search_commission cs)"

text \<open>\<open>ListingListProcessor._extract_percentage\<close>\<close>

definition extract_percentage :: "string \<Rightarrow> int option" where
  "extract_percentage t =
     (if t = [] then None
      else (case search_percent [] t of
              Some n \<Rightarrow> Some n
            | None \<Rightarrow> search_commission (py_lower t)))"

text \<open>\<^verbatim>\<open>text.split(sep)\<close> for a non-empty separator.\<close>

function split_on :: "string \<Rightarrow> string \<Rightarrow> string \<Rightarrow> string list" where
  "split_on sep cur [] = [cur]"
| "split_on sep cur (c # cs) =
     (if sep \<noteq> [] \<and> startswith (c # cs) sep
      then cur # split_on sep [] (drop (length sep - 1) cs)
      else split_on sep (cur @ [c]) cs)"
  by pat_completeness auto
termination
  by (relation "measure (\<lambda>(sep, cur, s). length s)") auto

text \<open>
  \<^verbatim>\<open>part.strip()\<close> where it is applied to a piece of a normalized text, in which the only
  white space is the space character.
\<close>

definition strip_spaces :: "string \<Rightarrow> string" where
  "strip_spaces s = rev (dropWhile (\<lambda>c. c = CHR '' '') (rev (dropWhile (\<lambda>c. c = CHR '' '') s)))"

subsection \<open>Dynamic values\<close>

type_synonym pydict = "(string \<times> pyval) list"

text \<open>Truth value testing, as \<open>bool(v)\<close>, \<open>if v\<close> and \<open>any\<close> do it.\<close>

fun truthy :: "pyval \<Rightarrow> bool" where
  "truthy PNone = False"
| "truthy (PBool b) = b"
| "truthy (PInt i) = (i \<noteq> 0)"
| "truthy (PStr s) = (s \<noteq> [])"
| "truthy (PList xs) = (xs \<noteq> [])"
| "truthy (PDict kvs) = (kvs \<noteq> [])"

text \<open>\<open>d.get(k)\<close>: the value under the key, \<open>None\<close> when the key is absent.\<close>

definition dget :: "pydict \<Rightarrow> string \<Rightarrow> pyval" where
  "dget d k = (case map_of d k of Some v \<Rightarrow> v | None \<Rightarrow> PNone)"

definition has_key :: "pydict \<Rightarrow> string \<Rightarrow> bool" where
  "has_key d k = (map_of d k \<noteq> None)"

text \<open>\<open>a or b\<close>\<close>

definition py_or :: "pyval \<Rightarrow> pyval \<Rightarrow> pyval" where
  "py_or a b = (if truthy a then a else b)"

fun is_str :: "pyval \<Rightarrow> bool" where
  "is_str (PStr s) = True"
| "is_str v = False"

fun is_dict :: "pyval \<Rightarrow> bool" where
  "is_dict (PDict d) = True"
| "is_dict v = False"

fun str_of :: "pyval \<Rightarrow> string" where
  "str_of (PStr s) = s"
| "str_of v = []"

fun opt_str :: "string option \<Rightarrow> pyval" where
  "opt_str None = PNone"
| "opt_str (Some s) = PStr s"

fun opt_int :: "int option \<Rightarrow> pyval" where
  "opt_int None = PNone"
| "opt_int (Some i) = PInt i"

text \<open>
  What an f-string or \<open>str(v)\<close> prints. Strings inside a list or a dictionary are
  printed between single quotes, without the escapes Python adds for quotes, backslashes
  and control characters.
\<close>

fun show_nat :: "nat \<Rightarrow> string" where
  "show_nat n =
     (if n < 10 then [char_of (48 + n)]
      else show_nat (n div 10) @ [char_of (48 + n mod 10)])"

definition show_int :: "int \<Rightarrow> string" where
  "show_int i = (if i < 0 then ''-'' @ show_nat (nat (- i)) else show_nat (nat i))"

fun py_repr :: "pyval \<Rightarrow> string" where
  "py_repr PNone = ''None''"
| "py_repr (PBool b) = (if b then ''True'' else ''False'')"
| "py_repr (PInt i) = show_int i"
| "py_repr (PStr s) = [CHR 0x27] @ s @ [CHR 0x27]"
| "py_repr (PList xs) = ''['' @ join '', '' (map py_repr xs) @ '']''"
| "py_repr (PDict kvs) =
     ''{'' @ join '', '' (map (\<lambda>kv. [CHR 0x27] @ fst kv @ [CHR 0x27] @ '': '' @ py_repr (snd kv)) kvs) @ ''}''"

fun py_str :: "pyval \<Rightarrow> string" where
  "py_str (PStr s) = s"
| "py_str v = py_repr v"

text \<open>\<^verbatim>\<open>f"{p} {cur}" if cur else str(p)\<close> when \<open>p\<close> is true, \<open>None\<close> otherwise.\<close>

definition price_text :: "pyval \<Rightarrow> pyval \<Rightarrow> pyval" where
  "price_text p cur =
     (if truthy p then
        (if truthy cur then PStr (py_str p @ '' '' @ py_str cur) else PStr (py_str p))
      else PNone)"

section \<open>core/parser.py: the parsed document\<close>

text \<open>
  The HTML parser, the CSS selectors, the JSON parser and the regular-expression engine
  are libraries. A parsed document is given by what the program's selectors find in it:
  for each card node, the element each chain of selectors picks and the text or
  attributes the program reads from it; for each title link, the same; and the text of
  the script elements.
\<close>

record anchor =
  a_title :: "string option"
  a_text :: string
  a_href :: "string option"

text \<open>
  Of a card node: the title link; the text of the price element; the text of the params
  line; the text of the address block with the text of the next paragraph after it (when
  there is one that is not the block itself); the text of the description; and the \<open>src\<close>
  attribute of every selected image, in document order.
\<close>

record card =
  c_anchor :: "anchor option"
  c_price :: "string option"
  c_params :: "string option"
  c_address :: "(string \<times> string option) option"
  c_description :: "string option"
  c_images :: "string option list"

text \<open>
  Of a title link found at page level: its attributes and text, and the text of the
  price and address elements found near it.
\<close>

record link =
  l_title :: "string option"
  l_text :: string
  l_href :: "string option"
  l_price :: "string option"
  l_address :: "string option"

record soup =
  primary_cards :: "card list"
  fallback_cards :: "card list"
  title_links :: "link list"
  ld_json_scripts :: "string option list"
  scripts :: "string option list"

text \<open>
  One match of the anchor pattern of the regex sweep: the link target, the anchor body,
  and what the price pattern matches in the 300 characters after the anchor.
\<close>

record rmatch =
  m_href :: string
  m_inner :: string
  m_price :: "string option"

text \<open>
  The libraries: the two HTML parsers of \<open>BeautifulSoup\<close>, \<open>json.loads\<close> (\<open>None\<close> when it
  raises), \<open>json.dumps\<close>, \<open>re.finditer\<close> with the anchor pattern, and the database
  behind the object-relational mapper: what it keeps of a Python value bound to a column
  of \<open>parsed_listings\<close>, as a later query loads it, or the exception that binding the value
  raises (an integer outside 64 bits, a list or a dictionary, a value the column's type
  rejects).
\<close>

record library =
  lxml :: "string \<Rightarrow> soup"
  html_parser :: "string \<Rightarrow> soup"
  json_loads :: "string \<Rightarrow> pyval option"
  json_dumps :: "pyval \<Rightarrow> string"
  finditer_anchors :: "string \<Rightarrow> rmatch list"
  db_bind :: "string \<Rightarrow> pyval \<Rightarrow> exn + pyval"

section \<open>core/parser.py: ListingListProcessor, tier 1\<close>

text \<open>
  A path that starts with a slash is put after the base URL without its trailing
  slashes, when a base URL is given: \<^verbatim>\<open>base_url.rstrip("/") + href\<close>.
\<close>

definition resolve :: "string option \<Rightarrow> string \<Rightarrow> string" where
  "resolve base href =
     (case base of
        None \<Rightarrow> href
      | Some b \<Rightarrow> if startswith href ''/'' \<and> b \<noteq> [] then rstrip_slash b @ href else href)"

text \<open>\<^verbatim>\<open>a.get("title") or a.get_text(" ")\<close>\<close>

definition label :: "string option \<Rightarrow> string \<Rightarrow> string" where
  "label title txt = (case title of None \<Rightarrow> txt | Some t \<Rightarrow> if t \<noteq> [] then t else txt)"

definition title_and_url :: "string option \<Rightarrow> anchor option \<Rightarrow> pydict" where
  "title_and_url base a =
     (case a of
        None \<Rightarrow> []
      | Some a \<Rightarrow>
          [(''title'', PStr (normalize (label (a_title a) (a_text a)))),
           (''url'', (case a_href a of None \<Rightarrow> PNone | Some h \<Rightarrow> PStr (resolve base h)))])"

definition price_entries :: "string option \<Rightarrow> pydict" where
  "price_entries el =
     (case el of
        None \<Rightarrow> []
      | Some t \<Rightarrow>
          [(''price'', PStr (normalize t)),
           (''price_raw'', PStr (normalize t)),
           (''price_value'', opt_int (extract_digits (normalize t)))])"

text \<open>
  The params line, split at the middle dot; a later part of the same kind replaces an
  earlier one.
\<close>

record params =
  p_bail :: "string option"
  p_bail_value :: "int option"
  p_tax :: "string option"
  p_commission_value :: "int option"
  p_services :: "string option"

definition no_params :: params where
  "no_params = \<lparr>p_bail = None, p_bail_value = None, p_tax = None, p_commission_value = None,
     p_services = None\<rparr>"

definition param_step :: "params \<Rightarrow> string \<Rightarrow> params" where
  "param_step st part =
     (if startswith part kw_bail then
        st\<lparr>p_bail := Some part, p_bail_value := extract_digits part\<rparr>
      else if startswith part kw_commission \<or> startswith part kw_no_commission then
        st\<lparr>p_tax := Some part, p_commission_value := extract_percentage part\<rparr>
      else if startswith part kw_services \<or> contains part kw_meters then
        st\<lparr>p_services := Some part\<rparr>
      else st)"

definition parse_params :: "string option \<Rightarrow> params" where
  "parse_params el =
     (case el of
        None \<Rightarrow> no_params
      | Some t \<Rightarrow> foldl param_step no_params (map strip_spaces (split_on middle_dot [] (normalize t))))"

definition if_str :: "string \<Rightarrow> string option \<Rightarrow> pydict" where
  "if_str k v = (case v of None \<Rightarrow> [] | Some s \<Rightarrow> if s \<noteq> [] then [(k, PStr s)] else [])"

definition if_int :: "string \<Rightarrow> int option \<Rightarrow> pydict" where
  "if_int k v = (case v of None \<Rightarrow> [] | Some i \<Rightarrow> [(k, PInt i)])"

definition params_entries :: "params \<Rightarrow> pydict" where
  "params_entries st =
     [(''bail'', opt_str (p_bail st)), (''tax'', opt_str (p_tax st)), (''services'', opt_str (p_services st))]
     @ if_str ''bail_raw'' (p_bail st)
     @ if_int ''bail_value'' (p_bail_value st)
     @ if_str ''commission_raw'' (p_tax st)
     @ if_int ''commission'' (p_commission_value st)
     @ if_str ''services_raw'' (p_services st)"

definition address_entries :: "(string \<times> string option) option \<Rightarrow> pydict" where
  "address_entries el =
     (case el of
        None \<Rightarrow> []
      | Some (main, next_p) \<Rightarrow>
          (let extra = (case next_p of None \<Rightarrow> [] | Some t \<Rightarrow> normalize t) in
           [(''address'', PStr (normalize main @ (if extra \<noteq> [] then '', '' @ extra else [])))]))"

definition description_entries :: "string option \<Rightarrow> pydict" where
  "description_entries el =
     (case el of None \<Rightarrow> [] | Some t \<Rightarrow> [(''description'', PStr (normalize t))])"

text \<open>
  The image loop of a card. A source is skipped when it is empty or already in the list;
  the test is made on the source as written, and the list holds the sources as rewritten.
\<close>

definition absolute_src :: "string option \<Rightarrow> string \<Rightarrow> string" where
  "absolute_src base src =
     (if startswith src ''//'' then ''https:'' @ src
      else (case base of
              None \<Rightarrow> src
            | Some b \<Rightarrow> if startswith src ''/'' \<and> b \<noteq> [] then rstrip_slash b @ src else src))"

fun card_images :: "string option \<Rightarrow> string list \<Rightarrow> string option list \<Rightarrow> string list" where
  "card_images base imgs [] = imgs"
| "card_images base imgs (None # rest) = card_images base imgs rest"
| "card_images base imgs (Some src # rest) =
     (if src \<noteq> [] \<and> src \<notin> set imgs then card_images base (imgs @ [absolute_src base src]) rest
      else card_images base imgs rest)"

definition card_item :: "string option \<Rightarrow> card \<Rightarrow> pydict" where
  "card_item base c =
     title_and_url base (c_anchor c)
     @ price_entries (c_price c)
     @ params_entries (parse_params (c_params c))
     @ address_entries (c_address c)
     @ description_entries (c_description c)
     @ [(''images'', PList (map PStr (card_images base [] (c_images c))))]"

text \<open>\<^verbatim>\<open>any(item.get(k) for k in ("title", "url"))\<close>\<close>

definition has_title_or_url :: "pydict \<Rightarrow> bool" where
  "has_title_or_url item = (truthy (dget item ''title'') \<or> truthy (dget item ''url''))"

text \<open>The items built from bare title links, when no card gave an item.\<close>

definition link_item :: "string option \<Rightarrow> link \<Rightarrow> pydict list" where
  "link_item base l =
     (case l_href l of
        None \<Rightarrow> []
      | Some h \<Rightarrow>
          if h = [] then []
          else [[(''title'', PStr (normalize (label (l_title l) (l_text l)))),
                 (''url'', PStr (resolve base h))]
                @ price_entries (l_price l)
                @ (case l_address l of None \<Rightarrow> [] | Some t \<Rightarrow> [(''address'', PStr (normalize t))])])"

definition extract_from_soup :: "string option \<Rightarrow> soup \<Rightarrow> pydict list" where
  "extract_from_soup base sp =
     (let card_nodes = (if primary_cards sp = [] then fallback_cards sp else primary_cards sp);
          cards_local = filter has_title_or_url (map (card_item base) card_nodes)
      in if cards_local = [] then concat (map (link_item base) (title_links sp))
         else cards_local)"

section \<open>core/parser.py: ListingListProcessor, tier 2\<close>

text \<open>Running a loop body over a list, stopping at the first exception.\<close>

fun collect :: "('a \<Rightarrow> exn + 'b list) \<Rightarrow> 'a list \<Rightarrow> exn + 'b list" where
  "collect f [] = Inr []"
| "collect f (x # xs) =
     (case f x of
        Inl e \<Rightarrow> Inl e
      | Inr ys \<Rightarrow> (case collect f xs of Inl e \<Rightarrow> Inl e | Inr zs \<Rightarrow> Inr (ys @ zs)))"

text \<open>
  \<^verbatim>\<open>if url and url.startswith("/") and base_url: url = base_url.rstrip("/") + url\<close>, where
  nothing checks that \<open>url\<close> is a string: a true value that is not a string has no
  \<open>startswith\<close>.
\<close>

definition resolve_unchecked :: "string option \<Rightarrow> pyval \<Rightarrow> exn + pyval" where
  "resolve_unchecked base url =
     (if truthy url then
        (case url of PStr u \<Rightarrow> Inr (PStr (resolve base u)) | other \<Rightarrow> Inl AttributeError)
      else Inr url)"

text \<open>The same with \<open>isinstance(url, str)\<close> checked first.\<close>

definition resolve_checked :: "string option \<Rightarrow> pyval \<Rightarrow> pyval" where
  "resolve_checked base url = (case url of PStr u \<Rightarrow> PStr (resolve base u) | other \<Rightarrow> url)"

text \<open>The image list of a structured-data entry: the strings of a list, or the one string.\<close>

definition str_images :: "pyval \<Rightarrow> pyval list" where
  "str_images img =
     (case img of
        PList xs \<Rightarrow> filter is_str xs
      | PStr s \<Rightarrow> [PStr s]
      | other \<Rightarrow> [])"

definition graph_offer :: "string option \<Rightarrow> pyval \<Rightarrow> exn + pydict list" where
  "graph_offer base offer =
     (case offer of
        PDict d \<Rightarrow>
          (case resolve_unchecked base (dget d ''url'') of
             Inl e \<Rightarrow> Inl e
           | Inr url \<Rightarrow>
               (let candidate =
                      [(''title'', dget d ''name''),
                       (''price'', price_text (dget d ''price'') (dget d ''priceCurrency'')),
                       (''url'', url),
                       (''images'', PList (if truthy (dget d ''image'') then str_images (dget d ''image'') else []))]
                in if has_title_or_url candidate then Inr [candidate] else Inr []))
      | other \<Rightarrow> Inr [])"

definition graph_item :: "string option \<Rightarrow> pyval \<Rightarrow> exn + pydict list" where
  "graph_item base gi =
     (case gi of
        PDict d \<Rightarrow>
          if has_key d ''offers'' then
            (case dget d ''offers'' of
               PDict offers \<Rightarrow>
                 if has_key offers ''offers'' then
                   (case dget offers ''offers'' of
                      PList offers_list \<Rightarrow> collect (graph_offer base) offers_list
                    | other \<Rightarrow> Inr [])
                 else Inr []
             | other \<Rightarrow> Inr [])
          else Inr []
      | other \<Rightarrow> Inr [])"

definition graph_entries :: "string option \<Rightarrow> pyval \<Rightarrow> exn + pydict list" where
  "graph_entries base data =
     (case data of
        PDict d \<Rightarrow>
          if has_key d ''@graph'' then
            (case dget d ''@graph'' of
               PList graph \<Rightarrow> collect (graph_item base) graph
             | other \<Rightarrow> Inr [])
          else Inr []
      | other \<Rightarrow> Inr [])"

text \<open>
  \<^verbatim>\<open>", ".join(filter(None, [street, locality])) or None\<close>: \<open>join\<close> raises on a part that is
  not a string.
\<close>

definition join_address :: "pyval \<Rightarrow> exn + pyval" where
  "join_address addr =
     (case addr of
        PDict d \<Rightarrow>
          (let parts = filter truthy [dget d ''streetAddress'', dget d ''addressLocality''] in
           if list_ex (\<lambda>p. \<not> is_str p) parts then Inl TypeError
           else if join '', '' (map str_of parts) \<noteq> [] then Inr (PStr (join '', '' (map str_of parts)))
           else Inr PNone)
      | other \<Rightarrow> Inr PNone)"

definition flat_entry :: "string option \<Rightarrow> pyval \<Rightarrow> exn + pydict list" where
  "flat_entry base obj =
     (case obj of
        PDict d \<Rightarrow>
          (case resolve_unchecked base (dget d ''url'') of
             Inl e \<Rightarrow> Inl e
           | Inr url \<Rightarrow>
               (case join_address (dget d ''address'') of
                  Inl e \<Rightarrow> Inl e
                | Inr address \<Rightarrow>
                    (let candidate =
                           [(''title'', py_or (dget d ''name'') (dget d ''headline'')),
                            (''price'',
                               (case dget d ''offers'' of
                                  PDict offers \<Rightarrow> price_text (dget offers ''price'') (dget offers ''priceCurrency'')
                                | other \<Rightarrow> PNone)),
                            (''url'', url),
                            (''address'', address),
                            (''description'', dget d ''description''),
                            (''images'', PList (str_images (dget d ''image'')))]
                     in if has_title_or_url candidate then Inr [candidate] else Inr [])))
      | other \<Rightarrow> Inr [])"

text \<open>
  One \<open>application/ld+json\<close> script: a body that does not parse is skipped; a parsed one
  is read as a graph and then as a flat entry or a list of flat entries.
\<close>

definition ld_script :: "library \<Rightarrow> string option \<Rightarrow> string option \<Rightarrow> exn + pydict list" where
  "ld_script L base tag_string =
     (case json_loads L (case tag_string of None \<Rightarrow> ''{}'' | Some s \<Rightarrow> if s \<noteq> [] then s else ''{}'') of
        None \<Rightarrow> Inr []
      | Some data \<Rightarrow>
          (case graph_entries base data of
             Inl e \<Rightarrow> Inl e
           | Inr from_graph \<Rightarrow>
               (case collect (flat_entry base) (case data of PList xs \<Rightarrow> xs | other \<Rightarrow> [data]) of
                  Inl e \<Rightarrow> Inl e
                | Inr from_flat \<Rightarrow> Inr (from_graph @ from_flat))))"

text \<open>
  The inline client state. \<open>walk\<close> yields the elements of every list found under a key
  named items, list or docs, and descends into every other value.
\<close>

fun walk :: "pyval \<Rightarrow> pyval list" where
  "walk (PDict kvs) =
     concat (map (\<lambda>kv.
        if py_lower (fst kv) \<in> set [''items'', ''list'', ''docs''] \<and> (case snd kv of PList vs \<Rightarrow> True | other \<Rightarrow> False)
        then (case snd kv of PList vs \<Rightarrow> vs | other \<Rightarrow> [])
        else walk (snd kv)) kvs)"
| "walk (PList xs) = concat (map walk xs)"
| "walk v = []"

definition picture :: "pyval \<Rightarrow> pyval" where
  "picture p = (case p of PDict d \<Rightarrow> dget d ''url'' | other \<Rightarrow> p)"

definition state_images :: "pyval \<Rightarrow> pyval list" where
  "state_images pics =
     (case pics of
        PList ps \<Rightarrow> filter is_str (map picture (filter truthy ps))
      | other \<Rightarrow> [])"

definition state_entry :: "string option \<Rightarrow> pyval \<Rightarrow> pydict list" where
  "state_entry base it =
     (case it of
        PDict d \<Rightarrow>
          (let candidate =
                 [(''title'', py_or (dget d ''title'') (dget d ''name'')),
                  (''url'', resolve_checked base (py_or (dget d ''url'') (dget d ''uri''))),
                  (''price'',
                     (case dget d ''price'' of
                        PDict p \<Rightarrow> price_text (py_or (dget p ''value'') (dget p ''price'')) (dget p ''currency'')
                      | other \<Rightarrow> PNone)),
                  (''images'', PList (state_images (py_or (dget d ''images'') (dget d ''thumbnails''))))]
           in if has_title_or_url candidate then [candidate] else [])
      | other \<Rightarrow> [])"

text \<open>\<^verbatim>\<open>txt[txt.find("{") : txt.rfind("}") + 1]\<close>, when both are found and in this order.\<close>

definition brace_region :: "string \<Rightarrow> string option" where
  "brace_region txt =
     (let start = length (takeWhile (\<lambda>c. c \<noteq> CHR ''{'') txt);
          back = length (takeWhile (\<lambda>c. c \<noteq> CHR ''}'') (rev txt))
      in if start < length txt \<and> back < length txt \<and> length txt - 1 - back > start
         then Some (take (length txt - back - start) (drop start txt))
         else None)"

definition state_script :: "library \<Rightarrow> string option \<Rightarrow> string \<Rightarrow> pydict list" where
  "state_script L base txt =
     (case brace_region txt of
        None \<Rightarrow> []
      | Some raw \<Rightarrow>
          (case json_loads L raw of
             None \<Rightarrow> []
           | Some state \<Rightarrow> concat (map (state_entry base) (walk state))))"

text \<open>The loop over all scripts stops at the first script that gives an item.\<close>

fun state_scan :: "library \<Rightarrow> string option \<Rightarrow> string option list \<Rightarrow> pydict list" where
  "state_scan L base [] = []"
| "state_scan L base (s # rest) =
     (let txt = (case s of None \<Rightarrow> [] | Some t \<Rightarrow> t) in
      if contains txt ''__INITIAL_STATE__'' then
        (if state_script L base txt \<noteq> [] then state_script L base txt
         else state_scan L base rest)
      else state_scan L base rest)"

text \<open>\<open>ListingListProcessor._extract_from_scripts\<close>\<close>

definition extract_from_scripts :: "library \<Rightarrow> string option \<Rightarrow> soup \<Rightarrow> exn + pydict list" where
  "extract_from_scripts L base sp =
     (case collect (ld_script L base) (ld_json_scripts sp) of
        Inl e \<Rightarrow> Inl e
      | Inr items \<Rightarrow>
          if items = [] then Inr (state_scan L base (scripts sp)) else Inr items)"

text \<open>
  \<open>ListingListProcessor.extract_all\<close>: the cards of the first parse, or of the second
  parse when the first gives none; then the structured data of the first parse, put after
  them.
\<close>

definition tier1 :: "library \<Rightarrow> string \<Rightarrow> string option \<Rightarrow> pydict list" where
  "tier1 L html base =
     (if extract_from_soup base (lxml L html) = [] then extract_from_soup base (html_parser L html)
      else extract_from_soup base (lxml L html))"

definition extract_all :: "library \<Rightarrow> string \<Rightarrow> string option \<Rightarrow> exn + pydict list" where
  "extract_all L html base =
     (let cards = tier1 L html base in
      case extract_from_scripts L base (lxml L html) of
        Inl e \<Rightarrow> Inl e
      | Inr scripted \<Rightarrow> Inr (cards @ scripted))"

section \<open>core/parser.py: ListingListProcessor, tier 3\<close>







section \<open>src/main.py: reconciliation\<close>

text \<open>
  \<open>seen_urls\<close> is a dictionary from url to the best item seen so far; it keeps the order
  in which its keys were first inserted, and replacing the value of a key keeps the key's
  place. Lists and dictionaries are not hashable, so \<open>url in seen_urls\<close> raises for them.
  Keys are compared as values (that Python takes \<open>True\<close> and \<open>1\<close> for the same key is not
  modelled).
\<close>

fun hashable :: "pyval \<Rightarrow> bool" where
  "hashable (PList xs) = False"
| "hashable (PDict kvs) = False"
| "hashable v = True"

definition has_images :: "pydict \<Rightarrow> bool" where
  "has_images data = truthy (dget data ''images'')"

definition reconcile_step :: "(pyval \<times> pydict) list \<Rightarrow> pydict \<Rightarrow> exn + (pyval \<times> pydict) list" where
  "reconcile_step seen_urls data =
     (if \<not> truthy (dget data ''url'') then Inr seen_urls
      else if \<not> hashable (dget data ''url'') then Inl TypeError
      else (case map_of seen_urls (dget data ''url'') of
              Some existing \<Rightarrow>
                if has_images data \<and> \<not> has_images existing
                then Inr (AList.update (dget data ''url'') data seen_urls)
                else Inr seen_urls
            | None \<Rightarrow> Inr (seen_urls @ [(dget data ''url'', data)])))"

fun reconcile_loop :: "(pyval \<times> pydict) list \<Rightarrow> pydict list \<Rightarrow> exn + (pyval \<times> pydict) list" where
  "reconcile_loop seen_urls [] = Inr seen_urls"
| "reconcile_loop seen_urls (data # rest) =
     (case reconcile_step seen_urls data of
        Inl e \<Rightarrow> Inl e
      | Inr seen' \<Rightarrow> reconcile_loop seen' rest)"

text \<open>The first loop of the session block, and \<open>seen_urls.values()\<close> after it.\<close>

definition reconcile :: "pydict list \<Rightarrow> exn + pydict list" where
  "reconcile items =
     (case reconcile_loop [] items of
        Inl e \<Rightarrow> Inl e
      | Inr seen_urls \<Rightarrow> Inr (map snd seen_urls))"

text \<open>
  The reconciliation as the specification words it: candidates without a url are
  dropped; the rest is grouped by url, the groups in the order of their first member; of
  a group the first candidate with images is kept, and the first candidate when none has
  images.
\<close>

definition with_url :: "pydict list \<Rightarrow> pydict list" where
  "with_url items = filter (\<lambda>c. truthy (dget c ''url'')) items"

definition url_group :: "pyval \<Rightarrow> pydict list \<Rightarrow> pydict list" where
  "url_group u items = filter (\<lambda>c. dget c ''url'' = u) (with_url items)"

definition group_winner :: "pydict list \<Rightarrow> pydict" where
  "group_winner g = (case filter has_images g of c # cs \<Rightarrow> c | [] \<Rightarrow> hd g)"

text \<open>The urls of the candidates that have one, each once, in the order of first arrival.\<close>

definition urls_in_order :: "pydict list \<Rightarrow> pyval list" where
  "urls_in_order items = rev (remdups (rev (map (\<lambda>c. dget c ''url'') (with_url items))))"

definition reconcile_spec :: "pydict list \<Rightarrow> pydict list" where
  "reconcile_spec items = map (\<lambda>u. group_winner (url_group u items)) (urls_in_order items)"

text \<open>The dictionary \<open>seen_urls\<close> that this description gives after a list of items.\<close>

definition seen_after :: "pydict list \<Rightarrow> (pyval \<times> pydict) list" where
  "seen_after items = map (\<lambda>u. (u, group_winner (url_group u items))) (urls_in_order items)"

section \<open>src/main.py and database/models.py: the store\<close>

text \<open>
  A row of \<open>parsed_listings\<close>: its url, its other data columns by name, and the two
  timestamps. The url column is unique. Time is a natural number.
\<close>

record row =
  r_url :: pyval
  r_columns :: pydict
  created_at :: nat
  updated_at :: nat

text \<open>The data columns as both branches of the upsert fill them from an item.\<close>

definition columns :: "library \<Rightarrow> pydict \<Rightarrow> pydict" where
  "columns L data =
     [(''title'', dget data ''title''),
      (''price'', dget data ''price''),
      (''price_raw'', dget data ''price_raw''),
      (''price_value'', dget data ''price_value''),
      (''bail'', dget data ''bail''),
      (''bail_raw'', dget data ''bail_raw''),
      (''bail_value'', dget data ''bail_value''),
      (''tax'', dget data ''tax''),
      (''commission_raw'', dget data ''commission_raw''),
      (''commission'', dget data ''commission''),
      (''services'', dget data ''services''),
      (''services_raw'', dget data ''services_raw''),
      (''address'', dget data ''address''),
      (''description'', dget data ''description''),
      (''images_json'', PStr (json_dumps L (py_or (dget data ''images'') (PList []))))]"

text \<open>
  Binding the values of an INSERT, column by column; the first value the database does
  not take raises.
\<close>

fun bind_columns :: "library \<Rightarrow> pydict \<Rightarrow> exn + pydict" where
  "bind_columns L [] = Inr []"
| "bind_columns L ((k, v) # kvs) =
     (case db_bind L k v of
        Inl e \<Rightarrow> Inl e
      | Inr stored \<Rightarrow>
          (case bind_columns L kvs of
             Inl e \<Rightarrow> Inl e
           | Inr rest \<Rightarrow> Inr ((k, stored) # rest)))"

text \<open>
  The insert binds the url and every data column, and gives both timestamps their
  default, the time of the insert. The row holds what the database keeps of the values.
\<close>

definition new_row :: "library \<Rightarrow> nat \<Rightarrow> pydict \<Rightarrow> exn + row" where
  "new_row L now data =
     (case db_bind L ''url'' (dget data ''url'') of
        Inl e \<Rightarrow> Inl e
      | Inr u \<Rightarrow>
          (case bind_columns L (columns L data) of
             Inl e \<Rightarrow> Inl e
           | Inr cols \<Rightarrow> Inr \<lparr>r_url = u, r_columns = cols, created_at = now, updated_at = now\<rparr>))"

text \<open>
  The update assigns every data column of the loaded object. When the session is flushed
  the object-relational mapper compares each assigned value with the loaded one, and
  emits an UPDATE, of the columns whose value differs, only for an object where some
  value differs; \<open>onupdate\<close> sets \<open>updated_at\<close> as part of that UPDATE. \<open>created_at\<close> is
  never assigned.
\<close>

definition unchanged :: "pydict \<Rightarrow> pydict \<Rightarrow> bool" where
  "unchanged loaded assigned = list_all (\<lambda>kv. dget loaded (fst kv) = snd kv) assigned"

fun bind_changed :: "library \<Rightarrow> pydict \<Rightarrow> pydict \<Rightarrow> exn + pydict" where
  "bind_changed L loaded [] = Inr []"
| "bind_changed L loaded ((k, v) # kvs) =
     (case (if dget loaded k = v then Inr v else db_bind L k v) of
        Inl e \<Rightarrow> Inl e
      | Inr stored \<Rightarrow>
          (case bind_changed L loaded kvs of
             Inl e \<Rightarrow> Inl e
           | Inr rest \<Rightarrow> Inr ((k, stored) # rest)))"

definition assign :: "library \<Rightarrow> nat \<Rightarrow> pydict \<Rightarrow> row \<Rightarrow> exn + row" where
  "assign L now data obj =
     (if unchanged (r_columns obj) (columns L data) then Inr obj
      else (case bind_changed L (r_columns obj) (columns L data) of
              Inl e \<Rightarrow> Inl e
            | Inr cols \<Rightarrow> Inr (obj\<lparr>r_columns := cols, updated_at := now\<rparr>)))"

text \<open>
  \<^verbatim>\<open>session.query(ParsedListing).filter_by(url=data["url"]).one_or_none()\<close>: the url of
  the item is bound as the parameter of the query, which finds the rows whose url is what
  the database keeps of it, and raises when more than one row matches; then the branch
  taken on its result. (\<open>parse-file\<close> adds a new object without flushing it, so a later
  query of the same session does not find it; the two commands differ only for two kept
  items whose urls the database keeps as the same value.)
\<close>

definition upsert :: "library \<Rightarrow> nat \<Rightarrow> row list \<Rightarrow> pydict \<Rightarrow> exn + row list" where
  "upsert L now rows data =
     (case db_bind L ''url'' (dget data ''url'') of
        Inl e \<Rightarrow> Inl e
      | Inr u \<Rightarrow>
          (case filter (\<lambda>r. r_url r = u) rows of
             [] \<Rightarrow> (case new_row L now data of Inl e \<Rightarrow> Inl e | Inr r \<Rightarrow> Inr (rows @ [r]))
           | [obj] \<Rightarrow>
               (case assign L now data obj of
                  Inl e \<Rightarrow> Inl e
                | Inr obj' \<Rightarrow> Inr (map (\<lambda>r. if r_url r = u then obj' else r) rows))
           | obj # others \<Rightarrow> Inl MultipleResultsFound))"

fun upsert_all :: "library \<Rightarrow> nat \<Rightarrow> row list \<Rightarrow> pydict list \<Rightarrow> exn + row list" where
  "upsert_all L now rows [] = Inr rows"
| "upsert_all L now rows (data # rest) =
     (case upsert L now rows data of
        Inl e \<Rightarrow> Inl e
      | Inr rows' \<Rightarrow> upsert_all L now rows' rest)"

text \<open>
  The session block: reconcile, upsert each winner, commit. An exception rolls the
  session back, so the store is as before, and is raised again. The result is the store
  and either the exception or the number of items saved or updated. A value the database
  does not take raises when it is bound, at the flush of the insert or at the commit, and
  the whole batch is rolled back.
\<close>

definition persist :: "library \<Rightarrow> nat \<Rightarrow> row list \<Rightarrow> pydict list \<Rightarrow> row list \<times> (exn + nat)" where
  "persist L now store items =
     (case reconcile items of
        Inl e \<Rightarrow> (store, Inl e)
      | Inr winners \<Rightarrow>
          (case upsert_all L now store winners of
             Inl e \<Rightarrow> (store, Inl e)
           | Inr rows \<Rightarrow> (rows, Inr (length winners))))"

text \<open>
  The database keeps the values of an item as they are: its url, and every data column.
  This is so for an item whose values have the types of the columns (strings or \<open>None\<close>
  in the text columns, integers of at most 64 bits or \<open>None\<close> in the integer columns).
\<close>

definition kept :: "library \<Rightarrow> pydict \<Rightarrow> bool" where
  "kept L data =
     (db_bind L ''url'' (dget data ''url'') = Inr (dget data ''url'')
      \<and> list_all (\<lambda>kv. db_bind L (fst kv) (snd kv) = Inr (snd kv)) (columns L data))"

text \<open>
  The upsert of such an item on a store in which no two rows have the same url, as the
  unique constraint of the column has it: the query finds the row of the url, or none.
\<close>

definition update_row :: "library \<Rightarrow> nat \<Rightarrow> pydict \<Rightarrow> row \<Rightarrow> row" where
  "update_row L now data obj =
     (if unchanged (r_columns obj) (columns L data) then obj
      else obj\<lparr>r_columns := columns L data, updated_at := now\<rparr>)"

definition upsert_unique :: "library \<Rightarrow> nat \<Rightarrow> row list \<Rightarrow> pydict \<Rightarrow> row list" where
  "upsert_unique L now rows data =
     (if dget data ''url'' \<in> r_url ` set rows
      then map (\<lambda>r. if r_url r = dget data ''url'' then update_row L now data r else r) rows
      else rows @ [\<lparr>r_url = dget data ''url'', r_columns = columns L data,
                     created_at = now, updated_at = now\<rparr>])"

text \<open>
  The store holds the item: there is a row with its url, and every such row has the
  item's value in every data column.
\<close>

definition holds :: "library \<Rightarrow> row list \<Rightarrow> pydict \<Rightarrow> bool" where
  "holds L rows w =
     (dget w ''url'' \<in> r_url ` set rows
      \<and> (\<forall>r\<in>set rows. r_url r = dget w ''url'' \<longrightarrow> unchanged (r_columns r) (columns L w)))"

section \<open>src/main.py: the runs\<close>

text \<open>
  What a run leaves behind: how \<open>main\<close> ends for its caller (it returns \<open>None\<close>, or an
  exception leaves it), the store, and a record of the extraction calls made and of the
  lines logged about the result.
\<close>

datatype entry =
    Called_extract_all string
  | Called_recover_scripts
  | Called_regex_sweep string
  | Log_found nat
  | Log_saved nat
  | Log_failed exn

record run =
  returned :: "exn + unit"
  db :: "row list"
  journal :: "entry list"

datatype client = Curl | Playwright

record network =
  net_server :: "nat \<Rightarrow> outcome"
  net_jitter :: "nat \<Rightarrow> real"
  net_browser :: browser_env

definition avito :: string where
  "avito = ''https://www.avito.ru''"

text \<open>
  The client is built before the \<open>try\<close> block of the command; \<open>PlaywrightClient.__init__\<close>
  reads no file.
\<close>

definition make_client :: "client \<Rightarrow> cookie_file \<Rightarrow> exn + unit" where
  "make_client cl cookie = (case cl of Curl \<Rightarrow> CurlClient_init cookie | Playwright \<Rightarrow> Inr ())"

definition client_get :: "client \<Rightarrow> cookie_file \<Rightarrow> network \<Rightarrow> exn + string" where
  "client_get cl cookie net =
     (case cl of
        Curl \<Rightarrow> snd (CurlClient_get (net_server net) (net_jitter net) (net_browser net))
      | Playwright \<Rightarrow> PlaywrightClient_get cookie (net_browser net))"

text \<open>
  The body of the \<open>try\<close> block of \<open>run-once\<close>, after the fetch: extract, log the number
  found, persist, log the number saved. It gives the store, the journal, and the exception
  that left the block, if any.
\<close>

definition extract_and_save :: "library \<Rightarrow> nat \<Rightarrow> row list \<Rightarrow> string
    \<Rightarrow> row list \<times> entry list \<times> exn option" where
  "extract_and_save L now store html =
     (case extract_all L html (Some avito) of
        Inl e \<Rightarrow> (store, [Called_extract_all html], Some e)
      | Inr items \<Rightarrow>
          (case persist L now store items of
             (store', Inl e) \<Rightarrow> (store', [Called_extract_all html, Log_found (length items)], Some e)
           | (store', Inr saved) \<Rightarrow>
               (store', [Called_extract_all html, Log_found (length items), Log_saved saved], None)))"

text \<open>
  \<open>main\<close> with the command \<open>run-once\<close>. Without a target URL \<open>parser.error\<close> exits. An
  exception inside the \<open>try\<close> block is caught by \<open>except Exception\<close> and logged; the
  function then returns as it does after a run that saved items.
\<close>

definition run_once :: "library \<Rightarrow> client \<Rightarrow> cookie_file \<Rightarrow> network \<Rightarrow> nat \<Rightarrow> string \<Rightarrow> row list \<Rightarrow> run" where
  "run_once L cl cookie net now target_url store =
     (if target_url = [] then \<lparr>returned = Inl SystemExit, db = store, journal = []\<rparr>
      else (case make_client cl cookie of
              Inl e \<Rightarrow> \<lparr>returned = Inl e, db = store, journal = []\<rparr>
            | Inr u \<Rightarrow>
                (case client_get cl cookie net of
                   Inl e \<Rightarrow> \<lparr>returned = Inr (), db = store, journal = [Log_failed e]\<rparr>
                 | Inr html \<Rightarrow>
                     (case extract_and_save L now store html of
                        (store', ns, Some e) \<Rightarrow> \<lparr>returned = Inr (), db = store', journal = ns @ [Log_failed e]\<rparr>
                      | (store', ns, None) \<Rightarrow> \<lparr>returned = Inr (), db = store', journal = ns\<rparr>))))"












section \<open>Example inputs\<close>

text \<open>Concrete servers, jitter and pages, used where a theorem is evaluated at an input.\<close>

definition always :: "int \<Rightarrow> string \<Rightarrow> nat \<Rightarrow> outcome" where
  "always status body attempt = Responded status body"

definition no_jitter :: "nat \<Rightarrow> real" where
  "no_jitter attempt = 0"

definition rendered :: "string \<Rightarrow> bool \<Rightarrow> bool \<Rightarrow> browser_env" where
  "rendered html title catalog =
     \<lparr>goto_raises = None, title_marker = title, catalog_marker = catalog, site_key = None,
      anticaptcha_key = None, solver_answer = Inr None, page_content = (\<lambda>injected. html)\<rparr>"


text \<open>
  A library whose parsers give one fixed document, whose JSON parser knows the texts of
  a table (and \<open>{}\<close>), whose anchor pattern finds the given matches, and whose database
  is the one below.
\<close>

definition json_table :: "(string \<times> pyval) list \<Rightarrow> string \<Rightarrow> pyval option" where
  "json_table tbl s = (if s = ''{}'' then Some (PDict []) else map_of tbl s)"

text \<open>
  A database with SQLite's way of storing the values the program binds: \<open>None\<close> is kept;
  a string is kept in a text column; an integer of at most 64 bits is kept in an integer
  column and written as its decimal text in a text column; a larger integer, a list and a
  dictionary cannot be bound. (A boolean, and a string bound to an integer column, which
  the program never binds, are rejected here.)
\<close>

definition integer_columns :: "string list" where
  "integer_columns = [''price_value'', ''bail_value'', ''commission'']"

definition text_affinity :: "string \<Rightarrow> pyval \<Rightarrow> exn + pyval" where
  "text_affinity col v =
     (case v of
        PNone \<Rightarrow> Inr PNone
      | PStr s \<Rightarrow> if col \<in> set integer_columns then Inl ProgrammingError else Inr (PStr s)
      | PInt i \<Rightarrow>
          if i < - (2 ^ 63) \<or> 2 ^ 63 \<le> i then Inl OverflowError
          else if col \<in> set integer_columns then Inr (PInt i)
          else Inr (PStr (show_int i))
      | other \<Rightarrow> Inl ProgrammingError)"

definition fixed_library :: "soup \<Rightarrow> (string \<times> pyval) list \<Rightarrow> rmatch list \<Rightarrow> library" where
  "fixed_library sp tbl ms =
     \<lparr>lxml = (\<lambda>html. sp), html_parser = (\<lambda>html. sp), json_loads = json_table tbl,
      json_dumps = py_repr, finditer_anchors = (\<lambda>html. ms), db_bind = text_affinity\<rparr>"

definition empty_soup :: soup where
  "empty_soup = \<lparr>primary_cards = [], fallback_cards = [], title_links = [], ld_json_scripts = [],
     scripts = []\<rparr>"

definition plain_card :: "string \<Rightarrow> string \<Rightarrow> string option list \<Rightarrow> card" where
  "plain_card title href srcs =
     \<lparr>c_anchor = Some \<lparr>a_title = None, a_text = title, a_href = Some href\<rparr>, c_price = None,
      c_params = None, c_address = None, c_description = None, c_images = srcs\<rparr>"

definition network_of :: "(nat \<Rightarrow> outcome) \<Rightarrow> browser_env \<Rightarrow> network" where
  "network_of srv env = \<lparr>net_server = srv, net_jitter = no_jitter, net_browser = env\<rparr>"

text \<open>
  A page with one card, whose title link goes to \<open>A\<close>, and one \<open>application/ld+json\<close>
  script, whose body parses to an entry with the url \<open>B\<close>.
\<close>

definition card_and_script :: "string \<Rightarrow> string \<Rightarrow> string \<Rightarrow> library" where
  "card_and_script A B body =
     fixed_library
       (empty_soup\<lparr>primary_cards := [plain_card ''Flat'' A []], ld_json_scripts := [Some body]\<rparr>)
       [(body, PDict [(''name'', PStr ''Room''), (''url'', PStr B)])] []"

text \<open>The urls of the items of a result.\<close>

definition urls_of :: "exn + pydict list \<Rightarrow> exn + pyval list" where
  "urls_of r = (case r of Inl e \<Rightarrow> Inl e | Inr items \<Rightarrow> Inr (map (\<lambda>c. dget c ''url'') items))"

text \<open>A page with one \<open>application/ld+json\<close> script, whose entry has the given \<open>image\<close>.\<close>

definition script_with_images :: "pyval \<Rightarrow> library" where
  "script_with_images img =
     fixed_library (empty_soup\<lparr>ld_json_scripts := [Some ''{ld}'']\<rparr>)
       [(''{ld}'', PDict [(''name'', PStr ''Room''), (''url'', PStr ''https://www.avito.ru/item/1''),
                          (''image'', img)])] []"

text \<open>
  A page in which the parsers find no card, no link and no script, and the anchor pattern
  finds one link.
\<close>

definition sweep_only :: library where
  "sweep_only = fixed_library empty_soup []
     [\<lparr>m_href = ''/item/1'', m_inner = ''<b>Flat 1</b>'', m_price = None\<rparr>]"


text \<open>A library that finds nothing in a page, and one candidate.\<close>

definition plain_library :: library where
  "plain_library = fixed_library empty_soup [] []"

definition room :: pydict where
  "room = [(''title'', PStr ''Room''), (''price'', PStr ''30000''),
           (''url'', PStr ''https://www.avito.ru/item/1''), (''images'', PList [PStr ''/a.jpg''])]"

text \<open>
  A page with one card, whose title link goes to \<open>A\<close>, and one \<open>application/ld+json\<close>
  script, whose body parses to an entry with the number 5 as its url.
\<close>

definition card_and_numeric_url :: "string \<Rightarrow> library" where
  "card_and_numeric_url A =
     fixed_library
       (empty_soup\<lparr>primary_cards := [plain_card ''Flat'' A []], ld_json_scripts := [Some ''{ld}'']\<rparr>)
       [(''{ld}'', PDict [(''name'', PStr ''Room''), (''url'', PInt 5)])] []"


text \<open>
  A second candidate for the url of \<open>room\<close>, with another price; a candidate whose title
  is the number 123, as a structured-data entry with a numeric name gives it; a candidate
  whose price has more digits than a 64-bit integer; and a candidate whose url is a list.
\<close>

definition room_repriced :: pydict where
  "room_repriced = [(''title'', PStr ''Room''), (''price'', PStr ''32000''),
           (''url'', PStr ''https://www.avito.ru/item/1''), (''images'', PList [PStr ''/a.jpg''])]"

definition numbered :: pydict where
  "numbered = [(''title'', PInt 123), (''url'', PStr ''https://www.avito.ru/item/2'')]"

definition overpriced :: pydict where
  "overpriced = [(''title'', PStr ''Palace''), (''url'', PStr ''https://www.avito.ru/item/3''),
           (''price_value'', PInt (2 ^ 63))]"

definition listed_url :: pydict where
  "listed_url = [(''title'', PStr ''Room''), (''url'', PList [PStr ''https://www.avito.ru/item/4''])]"

section \<open>The store: items the database keeps as they are\<close>

lemma bind_columns_kept:
  "list_all (\<lambda>kv. db_bind L (fst kv) (snd kv) = Inr (snd kv)) kvs \<Longrightarrow> bind_columns L kvs = Inr kvs"
  by (induction kvs) auto

lemma bind_changed_kept:
  "list_all (\<lambda>kv. db_bind L (fst kv) (snd kv) = Inr (snd kv)) kvs \<Longrightarrow> bind_changed L loaded kvs = Inr kvs"
  by (induction kvs) auto

lemma new_row_kept:
  "kept L data \<Longrightarrow> new_row L now data
     = Inr \<lparr>r_url = dget data ''url'', r_columns = columns L data, created_at = now, updated_at = now\<rparr>"
  by (simp add: kept_def new_row_def bind_columns_kept)

lemma assign_kept: "kept L data \<Longrightarrow> assign L now data obj = Inr (update_row L now data obj)"
  by (simp add: kept_def assign_def update_row_def bind_changed_kept)

lemma unchanged_self: "unchanged (columns L data) (columns L data)"
  by (simp add: unchanged_def columns_def dget_def)

lemma filter_unique:
  "distinct (map f xs) \<Longrightarrow> length (filter (\<lambda>x. f x = u) xs) \<le> 1"
  by (induction xs) (auto simp: filter_empty_conv intro: rev_image_eqI)

lemma upsert_eq_unique:
  assumes "distinct (map r_url rows)" "kept L data"
  shows "upsert L now rows data = Inr (upsert_unique L now rows data)"
proof (cases "filter (\<lambda>r. r_url r = dget data ''url'') rows")
  case Nil
  then have "dget data ''url'' \<notin> r_url ` set rows" by (auto simp: filter_empty_conv)
  moreover have "db_bind L ''url'' (dget data ''url'') = Inr (dget data ''url'')"
    using assms(2) by (simp add: kept_def)
  ultimately show ?thesis
    using Nil by (simp add: upsert_def upsert_unique_def new_row_kept [OF assms(2)])
next
  case (Cons obj others)
  have "length (filter (\<lambda>r. r_url r = dget data ''url'') rows) \<le> 1"
    using assms(1) by (rule filter_unique)
  then have o: "others = []" using Cons by simp
  have m: "obj \<in> set (filter (\<lambda>r. r_url r = dget data ''url'') rows)" using Cons by simp
  then have u: "dget data ''url'' \<in> r_url ` set rows" by (auto intro: rev_image_eqI)
  have same: "map (\<lambda>r. if r_url r = dget data ''url'' then update_row L now data obj else r) rows
      = map (\<lambda>r. if r_url r = dget data ''url'' then update_row L now data r else r) rows"
  proof (rule map_cong [OF refl])
    fix r
    assume r: "r \<in> set rows"
    show "(if r_url r = dget data ''url'' then update_row L now data obj else r)
        = (if r_url r = dget data ''url'' then update_row L now data r else r)"
    proof (cases "r_url r = dget data ''url''")
      case True
      then have "r \<in> set (filter (\<lambda>r. r_url r = dget data ''url'') rows)" using r by simp
      then have "r = obj" using Cons o by simp
      then show ?thesis by simp
    next
      case False
      then show ?thesis by simp
    qed
  qed
  have b: "db_bind L ''url'' (dget data ''url'') = Inr (dget data ''url'')"
    using assms(2) by (simp add: kept_def)
  show ?thesis
    using Cons o u same by (simp add: upsert_def upsert_unique_def assign_kept [OF assms(2)] b)
qed

lemma r_url_update_row: "r_url (update_row L now data r) = r_url r"
  by (simp add: update_row_def)

lemma created_at_update_row: "created_at (update_row L now data r) = created_at r"
  by (simp add: update_row_def)

lemma updated_at_update_row:
  "updated_at (update_row L now data r)
     = (if unchanged (r_columns r) (columns L data) then updated_at r else now)"
  by (simp add: update_row_def)

lemma unchanged_update_row: "unchanged (r_columns (update_row L now data r)) (columns L data)"
  by (simp add: update_row_def unchanged_self)

lemma urls_upsert_unique:
  "map r_url (upsert_unique L now rows data) =
     (if dget data ''url'' \<in> r_url ` set rows then map r_url rows
      else map r_url rows @ [dget data ''url''])"
  by (simp add: upsert_unique_def r_url_update_row comp_def if_distrib [of r_url] cong: if_cong)

lemma distinct_upsert_unique:
  "distinct (map r_url rows) \<Longrightarrow> distinct (map r_url (upsert_unique L now rows data))"
  by (simp only: urls_upsert_unique split: if_splits) auto

lemma upsert_all_eq_foldl:
  "distinct (map r_url rows) \<Longrightarrow> \<forall>w\<in>set ws. kept L w \<Longrightarrow>
     upsert_all L now rows ws = Inr (foldl (upsert_unique L now) rows ws)"
  by (induction ws arbitrary: rows) (simp_all add: upsert_eq_unique distinct_upsert_unique)

lemma distinct_foldl_upsert:
  "distinct (map r_url rows) \<Longrightarrow> distinct (map r_url (foldl (upsert_unique L now) rows ws))"
  by (induction ws arbitrary: rows) (simp_all add: distinct_upsert_unique)

lemma urls_foldl_upsert:
  "set (map r_url (foldl (upsert_unique L now) rows ws))
     = set (map r_url rows) \<union> (\<lambda>w. dget w ''url'') ` set ws"
proof (induction ws arbitrary: rows)
  case Nil
  show ?case by simp
next
  case (Cons w ws)
  have "set (map r_url (upsert_unique L now rows w)) = set (map r_url rows) \<union> {dget w ''url''}"
    by (simp only: urls_upsert_unique split: if_splits) auto
  then show ?case using Cons [of "upsert_unique L now rows w"] by auto
qed

lemma holds_upsert_same: "holds L (upsert_unique L now rows w) w"
proof -
  have "dget w ''url'' \<in> set (map r_url (upsert_unique L now rows w))"
    by (simp only: urls_upsert_unique split: if_splits) auto
  moreover have "\<forall>r\<in>set (upsert_unique L now rows w). r_url r = dget w ''url''
      \<longrightarrow> unchanged (r_columns r) (columns L w)"
    by (auto simp: upsert_unique_def r_url_update_row unchanged_update_row unchanged_self
        intro: rev_image_eqI)
  ultimately show ?thesis by (simp add: holds_def)
qed

lemma holds_upsert_other:
  "holds L rows w \<Longrightarrow> dget w' ''url'' \<noteq> dget w ''url'' \<Longrightarrow> holds L (upsert_unique L now rows w') w"
proof -
  assume h: "holds L rows w" and ne: "dget w' ''url'' \<noteq> dget w ''url''"
  have "set (map r_url rows) \<subseteq> set (map r_url (upsert_unique L now rows w'))"
    by (simp only: urls_upsert_unique split: if_splits) auto
  then have "dget w ''url'' \<in> set (map r_url (upsert_unique L now rows w'))"
    using h by (auto simp: holds_def)
  moreover have "\<forall>r\<in>set (upsert_unique L now rows w'). r_url r = dget w ''url''
      \<longrightarrow> unchanged (r_columns r) (columns L w)"
    using h ne by (auto simp: holds_def upsert_unique_def r_url_update_row intro: rev_image_eqI)
  ultimately show ?thesis by (simp add: holds_def)
qed

lemma holds_foldl_other:
  "holds L rows w \<Longrightarrow> dget w ''url'' \<notin> (\<lambda>w. dget w ''url'') ` set ws
     \<Longrightarrow> holds L (foldl (upsert_unique L now) rows ws) w"
proof (induction ws arbitrary: rows)
  case Nil
  then show ?case by simp
next
  case (Cons w' ws)
  from Cons.prems have "holds L (upsert_unique L now rows w') w"
    by (intro holds_upsert_other) auto
  then show ?case using Cons by simp
qed

lemma holds_foldl:
  "distinct (map (\<lambda>w. dget w ''url'') ws) \<Longrightarrow> w \<in> set ws
     \<Longrightarrow> holds L (foldl (upsert_unique L now) rows ws) w"
proof (induction ws arbitrary: rows)
  case Nil
  then show ?case by simp
next
  case (Cons w' ws)
  show ?case
  proof (cases "w = w'")
    case True
    have "holds L (foldl (upsert_unique L now) (upsert_unique L now rows w) ws) w"
      using Cons.prems True by (intro holds_foldl_other holds_upsert_same) auto
    then show ?thesis using True by simp
  next
    case False
    then show ?thesis using Cons by simp
  qed
qed

lemma upsert_unique_idle: "holds L rows w \<Longrightarrow> upsert_unique L now rows w = rows"
  by (auto simp: holds_def upsert_unique_def update_row_def intro!: map_idI)

lemma foldl_upsert_idle:
  "\<forall>w\<in>set ws. holds L rows w \<Longrightarrow> foldl (upsert_unique L now) rows ws = rows"
  by (induction ws) (simp_all add: upsert_unique_idle)


section \<open>Theorems: CookieStore\<close>

text \<open>
  C10. \<open>CookieStore.load\<close> is not total. For a cookie path that cannot be examined, the
  test \<open>self.path.exists()\<close>, which stands before the \<open>try\<close> block, raises, and \<open>load\<close>
  raises with it. In the other states it returns: the empty default
  \<open>{"cookies": [], "cookie_dict": {}}\<close> for a file that is absent, that cannot be read, or
  whose content is not valid JSON, and the parsed value for a stored value that parses.
\<close>

theorem CookieStore_load_unexaminable:
  "CookieStore_load (Unexaminable PermissionError) = Inl PermissionError
   \<and> CookieStore_load (Unexaminable e) = Inl e
   \<and> CookieStore_load NoFile = Inr (PDict [(''cookies'', PList []), (''cookie_dict'', PDict [])])
   \<and> CookieStore_load (Unreadable e) = Inr (PDict [(''cookies'', PList []), (''cookie_dict'', PDict [])])
   \<and> CookieStore_load (Corrupt e) = Inr (PDict [(''cookies'', PList []), (''cookie_dict'', PDict [])])
   \<and> CookieStore_load (Stored v) = Inr v"
  by (simp add: CookieStore_load_def default_cookies_def)

section \<open>Theorems: CurlClient and PlaywrightClient\<close>

lemma attempts_retry_prefix:
  "\<forall>i\<in>set xs. retryable (server i) \<Longrightarrow>
   attempts server jitter env (xs @ ys) =
     (concat (map (retried jitter) xs) @ fst (attempts server jitter env ys),
      snd (attempts server jitter env ys))"
proof (induction xs)
  case Nil
  show ?case by simp
next
  case (Cons x xs)
  from Cons.prems obtain st body where sx: "server x = Responded st body" and rs: "retryable_status st"
    by (cases "server x") auto
  from rs have ns: "\<not> (st = 200 \<or> st = 201)" and r: "st = 403 \<or> st = 429 \<or> st = 503"
    by (auto simp: retryable_status_def)
  from Cons have IH: "attempts server jitter env (xs @ ys) =
     (concat (map (retried jitter) xs) @ fst (attempts server jitter env ys),
      snd (attempts server jitter env ys))" by simp
  have hd: "retried jitter x = [Request x, SaveCookies, Sleep (backoff x (jitter x))]"
    by (simp add: retried_def)
  show ?case using sx ns r by (simp add: IH hd)
qed

lemma requests_append: "requests (xs @ ys) = requests xs @ requests ys"
  by (induction xs rule: requests.induct) simp_all
lemma sleeps_append: "sleeps (xs @ ys) = sleeps xs @ sleeps ys"
  by (induction xs rule: sleeps.induct) simp_all
lemma fallbacks_append: "fallbacks (xs @ ys) = fallbacks xs + fallbacks ys"
  by (induction xs rule: fallbacks.induct) simp_all

lemma requests_retried: "requests (concat (map (retried jitter) xs)) = xs"
  by (induction xs) (simp_all add: retried_def)
lemma sleeps_retried: "sleeps (concat (map (retried jitter) xs)) = map (\<lambda>i. backoff i (jitter i)) xs"
  by (induction xs) (simp_all add: retried_def)
lemma fallbacks_retried: "fallbacks (concat (map (retried jitter) xs)) = 0"
  by (induction xs) (simp_all add: retried_def)

lemma requests_attempts_le: "length (requests (fst (attempts server jitter env xs))) \<le> length xs"
  by (induction xs) (auto split: outcome.splits sum.splits prod.splits)

lemma range_split: "k \<le> 5 \<Longrightarrow> [1..<max_attempts + 1] = [1..<Suc k] @ [Suc k..<6]"
proof -
  assume k: "k \<le> 5"
  have "[1..<Suc k + (5 - k)] = [1..<Suc k] @ [Suc k..<Suc k + (5 - k)]"
    by (rule upt_add_eq_append) simp
  moreover have "Suc k + (5 - k) = 6" using k by simp
  ultimately show ?thesis by (simp add: max_attempts_def)
qed

lemma get_success_after:
  assumes k: "k < 5"
    and pre: "\<forall>i. 1 \<le> i \<and> i \<le> k \<longrightarrow> retryable (server i)"
    and ok: "server (Suc k) = Responded status body" "success_status status"
  shows "CurlClient_get server jitter env =
           (concat (map (retried jitter) [1..<Suc k]) @ [Request (Suc k), SaveCookies], Inr body)"
proof -
  have split: "[1..<max_attempts + 1] = [1..<Suc k] @ [Suc k..<6]"
    using k by (intro range_split) simp
  have all: "\<forall>i\<in>set [1..<Suc k]. retryable (server i)" using pre by auto
  have hd: "[Suc k..<6] = Suc k # [Suc (Suc k)..<6]" using k by (simp add: upt_conv_Cons)
  have last: "attempts server jitter env [Suc k..<6] = ([Request (Suc k), SaveCookies], Inr body)"
    using ok unfolding hd by (simp add: success_status_def)
  show ?thesis
    unfolding CurlClient_get_def split attempts_retry_prefix [OF all] last by simp
qed

lemma get_exhausted:
  assumes pre: "\<forall>i. 1 \<le> i \<and> i \<le> 5 \<longrightarrow> retryable (server i)"
  shows "CurlClient_get server jitter env =
           (concat (map (retried jitter) [1..<6]) @ [Fallback], PlaywrightClient_get saved_by_curl env)"
proof -
  have all: "\<forall>i\<in>set [1..<6]. retryable (server i)" using pre by auto
  have "attempts server jitter env ([1..<6] @ []) =
     (concat (map (retried jitter) [1..<6]) @ fst (attempts server jitter env []),
      snd (attempts server jitter env []))"
    by (rule attempts_retry_prefix [OF all])
  then show ?thesis by (simp add: CurlClient_get_def max_attempts_def)
qed

lemma backoff_bounds:
  "0 \<le> j \<Longrightarrow> j \<le> 1 / 2 \<Longrightarrow>
   real (min 10 (2 ^ a)) \<le> backoff a j \<and> backoff a j \<le> real (min 10 (2 ^ a)) + 1 / 2"
  by (simp add: backoff_def)

lemma upt_1_6: "[Suc 0..<6] = [Suc 0, 2, 3, 4, 5]"
  by code_simp


lemma get_other_after:
  assumes k: "k < 5"
    and pre: "\<forall>i. 1 \<le> i \<and> i \<le> k \<longrightarrow> retryable (server i)"
    and st: "server (Suc k) = Responded status body" "\<not> success_status status" "\<not> retryable_status status"
  shows "CurlClient_get server jitter env =
           (concat (map (retried jitter) [1..<Suc k]) @ [Request (Suc k), SaveCookies],
            if 200 \<le> status \<and> status < 400 then Inr body else Inl (HTTPError status))"
proof -
  have split: "[1..<max_attempts + 1] = [1..<Suc k] @ [Suc k..<6]"
    using k by (intro range_split) simp
  have all: "\<forall>i\<in>set [1..<Suc k]. retryable (server i)" using pre by auto
  have hd: "[Suc k..<6] = Suc k # [Suc (Suc k)..<6]" using k by (simp add: upt_conv_Cons)
  have last: "attempts server jitter env [Suc k..<6] =
      ([Request (Suc k), SaveCookies], if 200 \<le> status \<and> status < 400 then Inr body else Inl (HTTPError status))"
    using st unfolding hd by (simp add: success_status_def retryable_status_def raise_for_status_def)
  show ?thesis
    unfolding CurlClient_get_def split attempts_retry_prefix [OF all] last by simp
qed

text \<open>
  The retry policy, for attempts whose cookies are written. \<open>CurlClient.get\<close> sends at
  most 5 requests. When the attempts before it were answered with retryable statuses
  (403, 429, 503) and attempt \<open>k + 1\<close> is answered with status 200 or 201, the call returns
  that body at once: it has sent \<open>k + 1\<close> requests, slept once after each retryable answer
  for \<open>min(10, 2 ^ attempt)\<close> seconds plus the jitter, and has not called the browser.
  With a jitter between 0 and 0.5 seconds each sleep lies between \<open>min(10, 2 ^ attempt)\<close>
  and that bound plus 0.5. Four answers 503 followed by a 200 give exactly the four sleeps
  \<open>2 + j1, 4 + j2, 8 + j3, 10 + j4\<close>, in non-decreasing order, and the body of the 200.
  Five retryable answers give five requests and no sixth, one call of
  \<open>PlaywrightClient.get\<close>, and its result.
\<close>

theorem CurlClient_get_retry_policy:
  "length (requests (fst (CurlClient_get server jitter env))) \<le> 5
   \<and> (k < 5 \<and> (\<forall>i. 1 \<le> i \<and> i \<le> k \<longrightarrow> retryable (server i))
        \<and> server (Suc k) = Responded status body \<and> success_status status
      \<longrightarrow> snd (CurlClient_get server jitter env) = Inr body
          \<and> requests (fst (CurlClient_get server jitter env)) = [1..<Suc (Suc k)]
          \<and> sleeps (fst (CurlClient_get server jitter env)) = map (\<lambda>i. backoff i (jitter i)) [1..<Suc k]
          \<and> fallbacks (fst (CurlClient_get server jitter env)) = 0)
   \<and> (0 \<le> jitter a \<and> jitter a \<le> 1 / 2
      \<longrightarrow> real (min 10 (2 ^ a)) \<le> backoff a (jitter a)
          \<and> backoff a (jitter a) \<le> real (min 10 (2 ^ a)) + 1 / 2)
   \<and> ((\<forall>i. 1 \<le> i \<and> i \<le> 4 \<longrightarrow> (\<exists>b. server i = Responded 503 b))
        \<and> server 5 = Responded 200 page \<and> (\<forall>i. 0 \<le> jitter i \<and> jitter i \<le> 1 / 2)
      \<longrightarrow> snd (CurlClient_get server jitter env) = Inr page
          \<and> sleeps (fst (CurlClient_get server jitter env))
              = [2 + jitter 1, 4 + jitter 2, 8 + jitter 3, 10 + jitter 4]
          \<and> sorted (sleeps (fst (CurlClient_get server jitter env)))
          \<and> fallbacks (fst (CurlClient_get server jitter env)) = 0)
   \<and> ((\<forall>i. 1 \<le> i \<and> i \<le> 5 \<longrightarrow> retryable (server i))
      \<longrightarrow> snd (CurlClient_get server jitter env) = PlaywrightClient_get saved_by_curl env
          \<and> requests (fst (CurlClient_get server jitter env)) = [1, 2, 3, 4, 5]
          \<and> length (sleeps (fst (CurlClient_get server jitter env))) = 5
          \<and> fallbacks (fst (CurlClient_get server jitter env)) = 1)"
proof (intro conjI impI)
  show "length (requests (fst (CurlClient_get server jitter env))) \<le> 5"
    using requests_attempts_le [of server jitter env "[1..<max_attempts + 1]"]
    by (simp add: CurlClient_get_def max_attempts_def)
next
  assume h: "k < 5 \<and> (\<forall>i. 1 \<le> i \<and> i \<le> k \<longrightarrow> retryable (server i))
        \<and> server (Suc k) = Responded status body \<and> success_status status"
  then have eq: "CurlClient_get server jitter env =
           (concat (map (retried jitter) [1..<Suc k]) @ [Request (Suc k), SaveCookies], Inr body)"
    using get_success_after [of k server status body jitter env] by blast
  show "snd (CurlClient_get server jitter env) = Inr body" by (simp add: eq)
  show "requests (fst (CurlClient_get server jitter env)) = [1..<Suc (Suc k)]"
    by (simp add: eq requests_append requests_retried)
  show "sleeps (fst (CurlClient_get server jitter env)) = map (\<lambda>i. backoff i (jitter i)) [1..<Suc k]"
    by (simp add: eq sleeps_append sleeps_retried)
  show "fallbacks (fst (CurlClient_get server jitter env)) = 0"
    by (simp add: eq fallbacks_append fallbacks_retried)
next
  assume "0 \<le> jitter a \<and> jitter a \<le> 1 / 2"
  then show "real (min 10 (2 ^ a)) \<le> backoff a (jitter a)"
    and "backoff a (jitter a) \<le> real (min 10 (2 ^ a)) + 1 / 2"
    by (simp_all add: backoff_def)
next
  assume h: "(\<forall>i. 1 \<le> i \<and> i \<le> 4 \<longrightarrow> (\<exists>b. server i = Responded 503 b))
        \<and> server 5 = Responded 200 page \<and> (\<forall>i. 0 \<le> jitter i \<and> jitter i \<le> 1 / 2)"
  then have pre: "\<forall>i. 1 \<le> i \<and> i \<le> 4 \<longrightarrow> retryable (server i)"
    by (auto simp: retryable_status_def)
  have j: "\<And>i. 0 \<le> jitter i" "\<And>i. jitter i \<le> 1 / 2" using h by auto
  have eq: "CurlClient_get server jitter env =
           (concat (map (retried jitter) [1..<Suc 4]) @ [Request (Suc 4), SaveCookies], Inr page)"
    using pre h get_success_after [of 4 server 200 page jitter env] by (simp add: success_status_def)
  show "snd (CurlClient_get server jitter env) = Inr page" by (simp add: eq)
  show sl: "sleeps (fst (CurlClient_get server jitter env))
              = [2 + jitter 1, 4 + jitter 2, 8 + jitter 3, 10 + jitter 4]"
  proof -
    have "sleeps (fst (CurlClient_get server jitter env)) = map (\<lambda>i. backoff i (jitter i)) [1..<Suc 4]"
      unfolding eq by (simp only: fst_conv sleeps_append sleeps_retried) simp
    also have "\<dots> = [2 + jitter 1, 4 + jitter 2, 8 + jitter 3, 10 + jitter 4]"
    proof -
      have u: "[1..<Suc 4] = [1::nat, 2, 3, 4]" by code_simp
      show ?thesis unfolding u by (simp add: backoff_def)
    qed
    finally show ?thesis .
  qed
  show "sorted (sleeps (fst (CurlClient_get server jitter env)))"
    unfolding sl using j(1) [of 1] j(1) [of 2] j(1) [of 3] j(1) [of 4]
      j(2) [of 1] j(2) [of 2] j(2) [of 3] j(2) [of 4] by simp
  show "fallbacks (fst (CurlClient_get server jitter env)) = 0"
    by (simp add: eq fallbacks_append fallbacks_retried)
next
  assume h: "\<forall>i. 1 \<le> i \<and> i \<le> 5 \<longrightarrow> retryable (server i)"
  have eq: "CurlClient_get server jitter env =
           (concat (map (retried jitter) [1..<6]) @ [Fallback], PlaywrightClient_get saved_by_curl env)"
    using h by (rule get_exhausted)
  show "snd (CurlClient_get server jitter env) = PlaywrightClient_get saved_by_curl env" by (simp add: eq)
  show "requests (fst (CurlClient_get server jitter env)) = [1, 2, 3, 4, 5]"
  proof -
    have "requests (fst (CurlClient_get server jitter env)) = [1..<6]"
      unfolding eq by (simp only: fst_conv requests_append requests_retried) simp
    then show ?thesis by (simp add: upt_1_6)
  qed
  show "length (sleeps (fst (CurlClient_get server jitter env))) = 5"
    by (simp add: eq sleeps_append sleeps_retried)
  show "fallbacks (fst (CurlClient_get server jitter env)) = 1"
    by (simp add: eq fallbacks_append fallbacks_retried)
qed

theorem CurlClient_get_retry_policy_witness:
  "snd (CurlClient_get (\<lambda>i. if i < 5 then Responded 503 ''blocked'' else Responded 200 ''<html>ok</html>'')
          (\<lambda>i. 1 / 4)
          \<lparr>goto_raises = None, title_marker = True, catalog_marker = True, site_key = None,
           anticaptcha_key = None, solver_answer = Inr None, page_content = (\<lambda>b. ''<html>rendered</html>'')\<rparr>)
     = Inr ''<html>ok</html>''
   \<and> sleeps (fst (CurlClient_get (\<lambda>i. if i < 5 then Responded 503 ''blocked'' else Responded 200 ''<html>ok</html>'')
          (\<lambda>i. 1 / 4)
          \<lparr>goto_raises = None, title_marker = True, catalog_marker = True, site_key = None,
           anticaptcha_key = None, solver_answer = Inr None, page_content = (\<lambda>b. ''<html>rendered</html>'')\<rparr>))
     = [9 / 4, 17 / 4, 33 / 4, 41 / 4]
   \<and> snd (CurlClient_get (\<lambda>i. Responded 503 ''blocked'') (\<lambda>i. 1 / 4)
          \<lparr>goto_raises = None, title_marker = True, catalog_marker = True, site_key = None,
           anticaptcha_key = None, solver_answer = Inr None, page_content = (\<lambda>b. ''<html>rendered</html>'')\<rparr>)
     = Inr ''<html>rendered</html>''
   \<and> fallbacks (fst (CurlClient_get (\<lambda>i. Responded 503 ''blocked'') (\<lambda>i. 1 / 4)
          \<lparr>goto_raises = None, title_marker = True, catalog_marker = True, site_key = None,
           anticaptcha_key = None, solver_answer = Inr None, page_content = (\<lambda>b. ''<html>rendered</html>'')\<rparr>))
     = 1
   \<and> snd (CurlClient_get (\<lambda>i. Responded 201 ''created'') (\<lambda>i. 1 / 4)
          \<lparr>goto_raises = None, title_marker = True, catalog_marker = True, site_key = None,
           anticaptcha_key = None, solver_answer = Inr None, page_content = (\<lambda>b. ''<html>rendered</html>'')\<rparr>)
     = Inr ''created''
   \<and> backoff 3 (1 / 4) \<le> 8 + 1 / 2"
proof -
  let ?env = "\<lparr>goto_raises = None, title_marker = True, catalog_marker = True, site_key = None,
           anticaptcha_key = None, solver_answer = Inr None, page_content = (\<lambda>b. ''<html>rendered</html>'')\<rparr>"
  let ?jit = "\<lambda>i::nat. 1 / 4 :: real"
  let ?s1 = "\<lambda>i::nat. if i < 5 then Responded 503 ''blocked'' else Responded 200 ''<html>ok</html>''"
  let ?s2 = "\<lambda>i::nat. Responded 503 ''blocked''"
  let ?s3 = "\<lambda>i::nat. Responded 201 ''created''"
  have h1: "(\<forall>i. 1 \<le> i \<and> i \<le> 4 \<longrightarrow> (\<exists>b. ?s1 i = Responded 503 b))
        \<and> ?s1 5 = Responded 200 ''<html>ok</html>'' \<and> (\<forall>i. 0 \<le> ?jit i \<and> ?jit i \<le> 1 / 2)"
    by simp
  have h2: "\<forall>i. 1 \<le> i \<and> i \<le> 5 \<longrightarrow> retryable (?s2 i)"
    by (simp add: retryable_status_def)
  have h3: "(0::nat) < 5 \<and> (\<forall>i. 1 \<le> i \<and> i \<le> 0 \<longrightarrow> retryable (?s3 i))
        \<and> ?s3 (Suc 0) = Responded 201 ''created'' \<and> success_status 201"
    by (simp add: success_status_def)
  have h4: "0 \<le> ?jit 3 \<and> ?jit 3 \<le> 1 / 2" by simp
  note T1 = CurlClient_get_retry_policy [of ?s1 ?jit ?env 0 201 "''x''" 3 "''<html>ok</html>''"]
  note T2 = CurlClient_get_retry_policy [of ?s2 ?jit ?env 0 201 "''x''" 3 "''x''"]
  note T3 = CurlClient_get_retry_policy [of ?s3 ?jit ?env 0 201 "''created''" 3 "''x''"]
  from T1 h1 have a: "snd (CurlClient_get ?s1 ?jit ?env) = Inr ''<html>ok</html>''
      \<and> sleeps (fst (CurlClient_get ?s1 ?jit ?env)) = [2 + ?jit 1, 4 + ?jit 2, 8 + ?jit 3, 10 + ?jit 4]"
    by blast
  from T2 h2 have b: "snd (CurlClient_get ?s2 ?jit ?env) = PlaywrightClient_get saved_by_curl ?env
      \<and> fallbacks (fst (CurlClient_get ?s2 ?jit ?env)) = 1"
    by blast
  from T3 h3 have c: "snd (CurlClient_get ?s3 ?jit ?env) = Inr ''created''"
    by blast
  from T1 h4 have d: "backoff 3 (?jit 3) \<le> real (min 10 (2 ^ 3)) + 1 / 2"
    by blast
  have e: "PlaywrightClient_get saved_by_curl ?env = Inr ''<html>rendered</html>''"
    by (simp add: PlaywrightClient_get_def wait_for_items_def saved_by_curl_def CookieStore_load_def)
  from a b c d e show ?thesis by simp
qed


text \<open>
  C1. With a cookie file that cannot be written, \<open>CookieStore.save\<close> raises after the
  first answer, outside any \<open>try\<close>: an answer 200 does not make \<open>CurlClient.get\<close> return
  the body, an answer 503 is not retried, and the browser is not called. The call raises
  after one request.
\<close>

theorem CurlClient_get_save_raises:
  "CurlClient_get (\<lambda>attempt. Unsaved 200 ''<html>ok</html>'' PermissionError) no_jitter
       (rendered ''<html>rendered</html>'' True True)
     = ([Request 1], Inl PermissionError)
   \<and> CurlClient_get (\<lambda>attempt. Unsaved 503 ''blocked'' PermissionError) no_jitter
       (rendered ''<html>rendered</html>'' True True)
     = ([Request 1], Inl PermissionError)"
  by (simp add: CurlClient_get_def max_attempts_def upt_rec)

text \<open>
  C2, as stated, fails: \<open>raise_for_status\<close> raises only for a status outside 200..399, and
  the statement after it returns the body. A 204 answer, its cookies written, is returned,
  not raised.
\<close>

theorem CurlClient_get_other_status_counterexample:
  "CurlClient_get (always 204 ''partial'') no_jitter (rendered ''<html></html>'' True True)
     = ([Request 1, SaveCookies], Inr ''partial'')"
  by (simp add: CurlClient_get_def max_attempts_def always_def upt_rec raise_for_status_def)

text \<open>
  C2, amended. An answer whose cookies are written and whose status is neither 200/201
  nor 403/429/503 ends the call at that attempt: no further request is sent, no sleep
  follows it and the browser is not called. The call raises the HTTP error when the
  status is outside 200..399 and returns the body otherwise.
\<close>

theorem CurlClient_get_other_status:
  "k < 5 \<and> (\<forall>i. 1 \<le> i \<and> i \<le> k \<longrightarrow> retryable (server i))
     \<and> server (Suc k) = Responded status body
     \<and> \<not> success_status status \<and> \<not> retryable_status status
   \<longrightarrow> snd (CurlClient_get server jitter env)
         = (if 200 \<le> status \<and> status < 400 then Inr body else Inl (HTTPError status))
       \<and> requests (fst (CurlClient_get server jitter env)) = [1..<Suc (Suc k)]
       \<and> length (sleeps (fst (CurlClient_get server jitter env))) = k
       \<and> fallbacks (fst (CurlClient_get server jitter env)) = 0"
proof (intro impI)
  assume h: "k < 5 \<and> (\<forall>i. 1 \<le> i \<and> i \<le> k \<longrightarrow> retryable (server i))
     \<and> server (Suc k) = Responded status body
     \<and> \<not> success_status status \<and> \<not> retryable_status status"
  then have eq: "CurlClient_get server jitter env =
           (concat (map (retried jitter) [1..<Suc k]) @ [Request (Suc k), SaveCookies],
            if 200 \<le> status \<and> status < 400 then Inr body else Inl (HTTPError status))"
    using get_other_after [of k server status body jitter env] by blast
  have r: "requests (fst (CurlClient_get server jitter env)) = [1..<Suc (Suc k)]"
    unfolding eq by (simp only: fst_conv requests_append requests_retried) simp
  have s: "sleeps (fst (CurlClient_get server jitter env)) = map (\<lambda>i. backoff i (jitter i)) [1..<Suc k]"
    unfolding eq by (simp only: fst_conv sleeps_append sleeps_retried) simp
  have f: "fallbacks (fst (CurlClient_get server jitter env)) = 0"
    unfolding eq by (simp only: fst_conv fallbacks_append fallbacks_retried) simp
  show "snd (CurlClient_get server jitter env)
         = (if 200 \<le> status \<and> status < 400 then Inr body else Inl (HTTPError status))
       \<and> requests (fst (CurlClient_get server jitter env)) = [1..<Suc (Suc k)]
       \<and> length (sleeps (fst (CurlClient_get server jitter env))) = k
       \<and> fallbacks (fst (CurlClient_get server jitter env)) = 0"
  proof (intro conjI)
    show "snd (CurlClient_get server jitter env)
         = (if 200 \<le> status \<and> status < 400 then Inr body else Inl (HTTPError status))"
      by (simp add: eq)
    show "requests (fst (CurlClient_get server jitter env)) = [1..<Suc (Suc k)]" by (rule r)
    show "length (sleeps (fst (CurlClient_get server jitter env))) = k"
      unfolding s by simp
    show "fallbacks (fst (CurlClient_get server jitter env)) = 0" by (rule f)
  qed
qed

theorem CurlClient_get_other_status_witness:
  "snd (CurlClient_get (always 404 ''gone'') no_jitter (rendered ''<html></html>'' True True))
     = Inl (HTTPError 404)
   \<and> requests (fst (CurlClient_get (always 404 ''gone'') no_jitter (rendered ''<html></html>'' True True))) = [1]
   \<and> fallbacks (fst (CurlClient_get (always 404 ''gone'') no_jitter (rendered ''<html></html>'' True True))) = 0"
proof -
  have h: "(0::nat) < 5 \<and> (\<forall>i. 1 \<le> i \<and> i \<le> 0 \<longrightarrow> retryable (always 404 ''gone'' i))
     \<and> always 404 ''gone'' (Suc 0) = Responded 404 ''gone''
     \<and> \<not> success_status 404 \<and> \<not> retryable_status 404"
    by (simp add: always_def success_status_def retryable_status_def)
  from CurlClient_get_other_status [of 0 "always 404 ''gone''" 404 "''gone''" no_jitter
      "rendered ''<html></html>'' True True"] h
  show ?thesis by simp
qed

text \<open>
  C9, as stated, fails: when neither marker appears before the timeout, the wait for the
  catalog container raises and the call returns no markup.
\<close>

theorem PlaywrightClient_get_no_marker_counterexample:
  "PlaywrightClient_get NoFile (rendered ''<html>challenge</html>'' False False) = Inl PlaywrightTimeout"
  by (simp add: PlaywrightClient_get_def rendered_def wait_for_items_def CookieStore_load_def
      default_cookies_def)

text \<open>
  C9, amended. With a cookie file that is absent, unreadable, corrupt or holds a
  dictionary, and after a completed navigation: if the listing-title marker or the
  catalog container appears before the timeout (and the solving service, if called, does
  not raise), \<open>PlaywrightClient.get\<close> returns the rendered markup; if neither appears, the
  timeout of the second wait is raised to the caller.
\<close>

theorem PlaywrightClient_get_markers:
  "((\<exists>d. CookieStore_load cookie = Inr (PDict d)) \<and> goto_raises env = None
      \<and> (title_marker env \<or> catalog_marker env)
      \<and> (\<forall>e. solve_recaptcha_v2 env \<noteq> Inl e)
    \<longrightarrow> (\<exists>injected. PlaywrightClient_get cookie env = Inr (page_content env injected)))
   \<and> ((\<exists>d. CookieStore_load cookie = Inr (PDict d)) \<and> goto_raises env = None
      \<and> \<not> title_marker env \<and> \<not> catalog_marker env
    \<longrightarrow> PlaywrightClient_get cookie env = Inl PlaywrightTimeout)"
  by (auto simp: PlaywrightClient_get_def wait_for_items_def split: option.splits sum.splits)

theorem PlaywrightClient_get_markers_witness:
  "PlaywrightClient_get NoFile (rendered ''<html>catalog</html>'' False True) = Inr ''<html>catalog</html>''
   \<and> PlaywrightClient_get NoFile (rendered ''<html>challenge</html>'' False False) = Inl PlaywrightTimeout"
proof -
  have c: "\<exists>d. CookieStore_load NoFile = Inr (PDict d)"
    by (simp add: CookieStore_load_def default_cookies_def)
  have a: "goto_raises (rendered ''<html>catalog</html>'' False True) = None
      \<and> (title_marker (rendered ''<html>catalog</html>'' False True)
          \<or> catalog_marker (rendered ''<html>catalog</html>'' False True))
      \<and> (\<forall>e. solve_recaptcha_v2 (rendered ''<html>catalog</html>'' False True) \<noteq> Inl e)"
    by (simp add: rendered_def solve_recaptcha_v2_def)
  have b: "goto_raises (rendered ''<html>challenge</html>'' False False) = None
      \<and> \<not> title_marker (rendered ''<html>challenge</html>'' False False)
      \<and> \<not> catalog_marker (rendered ''<html>challenge</html>'' False False)"
    by (simp add: rendered_def)
  from PlaywrightClient_get_markers [of NoFile "rendered ''<html>catalog</html>'' False True"] a c
  have "\<exists>injected. PlaywrightClient_get NoFile (rendered ''<html>catalog</html>'' False True)
      = Inr (page_content (rendered ''<html>catalog</html>'' False True) injected)"
    by blast
  moreover from PlaywrightClient_get_markers [of NoFile "rendered ''<html>challenge</html>'' False False"] b c
  have "PlaywrightClient_get NoFile (rendered ''<html>challenge</html>'' False False) = Inl PlaywrightTimeout"
    by blast
  ultimately show ?thesis by (simp add: rendered_def)
qed


section \<open>Reconciliation\<close>

text \<open>
  The loop over \<open>seen_urls\<close> is compared with a description by groups: the candidates
  with a url, grouped by url, one winner a group, in the order of first arrival.
\<close>

lemma urls_in_order_snoc:
  "urls_in_order (xs @ [y]) =
     (if truthy (dget y ''url'') \<and> dget y ''url'' \<notin> set (urls_in_order xs)
      then urls_in_order xs @ [dget y ''url''] else urls_in_order xs)"
  by (auto simp: urls_in_order_def with_url_def)

lemma set_urls_in_order:
  "set (urls_in_order xs) = (\<lambda>c. dget c ''url'') ` {c \<in> set xs. truthy (dget c ''url'')}"
  by (auto simp: urls_in_order_def with_url_def)

lemma distinct_urls_in_order: "distinct (urls_in_order xs)"
  by (simp add: urls_in_order_def)

lemma url_group_snoc:
  "url_group u (xs @ [y]) =
     (if truthy (dget y ''url'') \<and> dget y ''url'' = u then url_group u xs @ [y] else url_group u xs)"
  by (auto simp: url_group_def with_url_def)

lemma url_group_nonempty: "u \<in> set (urls_in_order xs) \<Longrightarrow> url_group u xs \<noteq> []"
  by (auto simp: set_urls_in_order url_group_def with_url_def filter_empty_conv)

lemma url_group_empty: "u \<notin> set (urls_in_order xs) \<Longrightarrow> truthy u \<Longrightarrow> url_group u xs = []"
  by (auto simp: set_urls_in_order url_group_def with_url_def filter_empty_conv)

lemma url_group_url: "c \<in> set (url_group u xs) \<Longrightarrow> dget c ''url'' = u \<and> c \<in> set xs"
  by (auto simp: url_group_def with_url_def)

lemma filter_Cons_mem: "filter P g = c # cs \<Longrightarrow> c \<in> set g \<and> P c"
proof -
  assume h: "filter P g = c # cs"
  have "c \<in> set (filter P g)" unfolding h by simp
  then show ?thesis by simp
qed

lemma group_winner_in: "g \<noteq> [] \<Longrightarrow> group_winner g \<in> set g"
  by (cases "filter has_images g") (auto simp: group_winner_def dest: filter_Cons_mem)

lemma winner_has_images:
  "g \<noteq> [] \<Longrightarrow> has_images (group_winner g) = (filter has_images g \<noteq> [])"
proof (cases "filter has_images g")
  case Nil
  assume g: "g \<noteq> []"
  from Nil have "\<forall>c\<in>set g. \<not> has_images c" by (simp add: filter_empty_conv)
  with g have "\<not> has_images (hd g)" by simp
  then show ?thesis using Nil by (simp add: group_winner_def)
next
  case (Cons c cs)
  then have "has_images c" by (blast dest: filter_Cons_mem)
  then show ?thesis using Cons by (simp add: group_winner_def)
qed

lemma group_winner_snoc:
  assumes g: "g \<noteq> []"
  shows "group_winner (g @ [y]) =
     (if has_images y \<and> \<not> has_images (group_winner g) then y else group_winner g)"
proof (cases "filter has_images g")
  case Nil
  then have no: "\<not> has_images (group_winner g)" using winner_has_images [OF g] by simp
  have hd: "hd (g @ [y]) = hd g" using g by simp
  show ?thesis using Nil no hd by (simp add: group_winner_def)
next
  case (Cons c cs)
  then have yes: "has_images (group_winner g)" using winner_has_images [OF g] by simp
  show ?thesis using Cons yes by (simp add: group_winner_def)
qed

lemma map_of_keyed:
  "map_of (map (\<lambda>u. (u, f u)) us) k = (if k \<in> set us then Some (f k) else None)"
  by (induction us) auto

lemma update_keyed:
  "distinct us \<Longrightarrow> k \<in> set us \<Longrightarrow>
   AList.update k v (map (\<lambda>u. (u, f u)) us) = map (\<lambda>u. (u, if u = k then v else f u)) us"
  by (induction us) auto

lemma reconcile_step_seen_after:
  assumes "hashable (dget y ''url'')"
  shows "reconcile_step (seen_after xs) y = Inr (seen_after (xs @ [y]))"
proof (cases "truthy (dget y ''url'')")
  case False
  then show ?thesis
    by (simp add: reconcile_step_def seen_after_def urls_in_order_snoc url_group_snoc)
next
  case True
  let ?u = "dget y ''url''"
  show ?thesis
  proof (cases "?u \<in> set (urls_in_order xs)")
    case False
    have g: "url_group ?u xs = []" using False True by (rule url_group_empty)
    have other: "\<And>u. u \<in> set (urls_in_order xs) \<Longrightarrow> url_group u (xs @ [y]) = url_group u xs"
      using False by (auto simp: url_group_snoc)
    have "seen_after (xs @ [y]) = seen_after xs @ [(?u, y)]"
      using True False other
      by (simp add: seen_after_def urls_in_order_snoc url_group_snoc g group_winner_def)
    then show ?thesis using True False assms
      by (simp add: reconcile_step_def) (simp add: seen_after_def map_of_keyed)
  next
    case in_seen: True
    have g: "url_group ?u xs \<noteq> []" using in_seen by (rule url_group_nonempty)
    have look: "map_of (seen_after xs) ?u = Some (group_winner (url_group ?u xs))"
      using in_seen by (simp add: seen_after_def map_of_keyed)
    have new: "seen_after (xs @ [y]) =
        map (\<lambda>u. (u, if u = ?u then group_winner (url_group ?u xs @ [y]) else group_winner (url_group u xs)))
          (urls_in_order xs)"
      using True in_seen by (simp add: seen_after_def urls_in_order_snoc url_group_snoc)
    show ?thesis
    proof (cases "has_images y \<and> \<not> has_images (group_winner (url_group ?u xs))")
      case replace: True
      have "AList.update ?u y (seen_after xs) =
          map (\<lambda>u. (u, if u = ?u then y else group_winner (url_group u xs))) (urls_in_order xs)"
        unfolding seen_after_def using distinct_urls_in_order in_seen by (rule update_keyed)
      then show ?thesis using True assms look replace
        by (simp add: reconcile_step_def new group_winner_snoc [OF g])
    next
      case keep: False
      have w: "group_winner (url_group ?u xs @ [y]) = group_winner (url_group ?u xs)"
        using keep group_winner_snoc [OF g, of y] by auto
      have "seen_after (xs @ [y]) = map (\<lambda>u. (u, group_winner (url_group u xs))) (urls_in_order xs)"
        unfolding new by (rule map_cong) (simp_all add: w)
      then have "seen_after (xs @ [y]) = seen_after xs" by (simp add: seen_after_def)
      then show ?thesis using True assms look keep
        by (cases "has_images y") (simp_all add: reconcile_step_def)
    qed
  qed
qed

lemma reconcile_loop_seen_after:
  "\<forall>c\<in>set ys. hashable (dget c ''url'') \<Longrightarrow>
   reconcile_loop (seen_after xs) ys = Inr (seen_after (xs @ ys))"
proof (induction ys arbitrary: xs)
  case Nil
  show ?case by simp
next
  case (Cons y ys)
  have "reconcile_loop (seen_after (xs @ [y])) ys = Inr (seen_after ((xs @ [y]) @ ys))"
    using Cons.prems by (intro Cons.IH) simp
  then show ?case using Cons.prems by (simp add: reconcile_step_seen_after)
qed

lemma reconcile_eq_spec:
  "\<forall>c\<in>set items. hashable (dget c ''url'') \<Longrightarrow> reconcile items = Inr (reconcile_spec items)"
proof -
  assume h: "\<forall>c\<in>set items. hashable (dget c ''url'')"
  have e: "seen_after [] = []" by (simp add: seen_after_def urls_in_order_def with_url_def)
  have "reconcile_loop (seen_after []) items = Inr (seen_after ([] @ items))"
    using h by (rule reconcile_loop_seen_after)
  then have "reconcile_loop [] items = Inr (seen_after items)" by (simp add: e)
  then show ?thesis
    by (simp add: reconcile_def seen_after_def reconcile_spec_def comp_def)
qed

lemma urls_of_reconcile_spec:
  "map (\<lambda>c. dget c ''url'') (reconcile_spec items) = urls_in_order items"
proof -
  have "\<And>u. u \<in> set (urls_in_order items) \<Longrightarrow> dget (group_winner (url_group u items)) ''url'' = u"
    using url_group_url group_winner_in url_group_nonempty by blast
  then show ?thesis by (simp add: reconcile_spec_def comp_def map_idI)
qed

lemma reconcile_spec_subset: "set (reconcile_spec items) \<subseteq> set items"
proof
  fix c
  assume "c \<in> set (reconcile_spec items)"
  then obtain u where u: "u \<in> set (urls_in_order items)" and c: "c = group_winner (url_group u items)"
    by (auto simp: reconcile_spec_def)
  from u have "url_group u items \<noteq> []" by (rule url_group_nonempty)
  then have "c \<in> set (url_group u items)" unfolding c by (rule group_winner_in)
  then show "c \<in> set items" by (simp add: url_group_url)
qed





section \<open>Extraction\<close>

lemma card_and_script_tier1:
  "A \<noteq> [] \<Longrightarrow> map (\<lambda>c. dget c ''url'') (tier1 (card_and_script A B body) html None) = [PStr A]"
  by (simp add: tier1_def card_and_script_def fixed_library_def empty_soup_def plain_card_def
      extract_from_soup_def card_item_def title_and_url_def has_title_or_url_def dget_def resolve_def
      price_entries_def address_entries_def description_entries_def Let_def)

lemma card_and_script_tier2:
  "B \<noteq> [] \<Longrightarrow> body \<noteq> [] \<Longrightarrow> body \<noteq> ''{}'' \<Longrightarrow>
   extract_from_scripts (card_and_script A B body) None (lxml (card_and_script A B body) html)
     = Inr [[(''title'', PStr ''Room''), (''price'', PNone), (''url'', PStr B), (''address'', PNone),
             (''description'', PNone), (''images'', PList [])]]"
  by (simp add: extract_from_scripts_def card_and_script_def fixed_library_def empty_soup_def
      ld_script_def json_table_def graph_entries_def has_key_def flat_entry_def resolve_unchecked_def
      resolve_def dget_def join_address_def py_or_def str_images_def has_title_or_url_def Let_def)

text \<open>
  C3. \<open>extract_all\<close> does not return on every markup. On a page with one card and one
  structured-data script whose entry has a number as its url, the cards give a candidate,
  and the structured-data extraction raises where it calls \<open>url.startswith\<close>, which only
  the path of the inline state guards with \<open>isinstance(url, str)\<close>: \<open>extract_all\<close>
  raises, and the candidate of the card is not returned.
\<close>

theorem extract_all_raises_on_numeric_url:
  "map (\<lambda>c. dget c ''url'') (tier1 (card_and_numeric_url ''https://www.avito.ru/item/1'') ''<html></html>'' (Some avito))
     = [PStr ''https://www.avito.ru/item/1'']
   \<and> extract_all (card_and_numeric_url ''https://www.avito.ru/item/1'') ''<html></html>'' (Some avito)
     = Inl AttributeError"
proof -
  have t: "map (\<lambda>c. dget c ''url'') (tier1 (card_and_numeric_url ''https://www.avito.ru/item/1'') ''<html></html>'' (Some avito))
     = [PStr ''https://www.avito.ru/item/1'']"
    by (simp add: tier1_def card_and_numeric_url_def fixed_library_def empty_soup_def plain_card_def
      extract_from_soup_def card_item_def title_and_url_def has_title_or_url_def dget_def resolve_def
      price_entries_def address_entries_def description_entries_def Let_def startswith_def avito_def)
  have e: "extract_from_scripts (card_and_numeric_url ''https://www.avito.ru/item/1'') (Some avito)
      (lxml (card_and_numeric_url ''https://www.avito.ru/item/1'') ''<html></html>'') = Inl AttributeError"
    by (simp add: extract_from_scripts_def card_and_numeric_url_def fixed_library_def empty_soup_def
      ld_script_def json_table_def graph_entries_def has_key_def flat_entry_def resolve_unchecked_def
      dget_def)
  show ?thesis using t by (simp add: extract_all_def e)
qed

text \<open>
  What \<open>extract_all\<close> returns when the structured-data extraction returns: it runs that
  extraction on the first parse whatever the cards gave, and returns the card candidates
  followed by the structured-data candidates; an exception of the structured-data
  extraction is the exception of \<open>extract_all\<close>. For a page with one card with the url
  \<open>A\<close> and one structured-data script describing the url \<open>B\<close>, it returns a candidate
  for \<open>A\<close> and then a candidate for \<open>B\<close>.
\<close>

theorem extract_all_appends_scripts:
  "(extract_from_scripts L base (lxml L html) = Inr scripted
      \<longrightarrow> extract_all L html base = Inr (tier1 L html base @ scripted))
   \<and> (extract_from_scripts L base (lxml L html) = Inl e \<longrightarrow> extract_all L html base = Inl e)
   \<and> (A \<noteq> [] \<and> B \<noteq> [] \<and> body \<noteq> [] \<and> body \<noteq> ''{}''
      \<longrightarrow> urls_of (extract_all (card_and_script A B body) html None) = Inr [PStr A, PStr B])"
proof (intro conjI impI)
  assume "extract_from_scripts L base (lxml L html) = Inr scripted"
  then show "extract_all L html base = Inr (tier1 L html base @ scripted)"
    by (simp add: extract_all_def)
next
  assume "extract_from_scripts L base (lxml L html) = Inl e"
  then show "extract_all L html base = Inl e" by (simp add: extract_all_def)
next
  assume h: "A \<noteq> [] \<and> B \<noteq> [] \<and> body \<noteq> [] \<and> body \<noteq> ''{}''"
  then show "urls_of (extract_all (card_and_script A B body) html None) = Inr [PStr A, PStr B]"
    using card_and_script_tier1 [of A B body html] card_and_script_tier2 [of B body A html]
    by (simp add: extract_all_def urls_of_def dget_def)
qed


theorem extract_all_appends_scripts_witness:
  "extract_all (card_and_script ''https://a.test/A'' ''https://a.test/B'' ''{name: Room, url: B}'') ''<html></html>'' None
     = Inr (tier1 (card_and_script ''https://a.test/A'' ''https://a.test/B'' ''{name: Room, url: B}'') ''<html></html>'' None
            @ [[(''title'', PStr ''Room''), (''price'', PNone), (''url'', PStr ''https://a.test/B''),
                (''address'', PNone), (''description'', PNone), (''images'', PList [])]])
   \<and> extract_all (fixed_library (empty_soup\<lparr>ld_json_scripts := [Some ''{url: 5}'']\<rparr>)
                     [(''{url: 5}'', PDict [(''url'', PInt 5)])] []) ''<html></html>'' None
     = Inl AttributeError
   \<and> urls_of (extract_all (card_and_script ''https://a.test/A'' ''https://a.test/B'' ''{name: Room, url: B}'') ''<html></html>'' None)
     = Inr [PStr ''https://a.test/A'', PStr ''https://a.test/B'']"
proof -
  let ?L = "card_and_script ''https://a.test/A'' ''https://a.test/B'' ''{name: Room, url: B}''"
  let ?M = "fixed_library (empty_soup\<lparr>ld_json_scripts := [Some ''{url: 5}'']\<rparr>)
              [(''{url: 5}'', PDict [(''url'', PInt 5)])] []"
  let ?s = "[[(''title'', PStr ''Room''), (''price'', PNone), (''url'', PStr ''https://a.test/B''),
              (''address'', PNone), (''description'', PNone), (''images'', PList [])]]"
  have h1: "extract_from_scripts ?L None (lxml ?L ''<html></html>'') = Inr ?s"
    by (rule card_and_script_tier2) simp_all
  have h2: "extract_from_scripts ?M None (lxml ?M ''<html></html>'') = Inl AttributeError"
    by (simp add: extract_from_scripts_def fixed_library_def empty_soup_def
      ld_script_def json_table_def graph_entries_def has_key_def flat_entry_def resolve_unchecked_def
      dget_def)
  have h3: "''https://a.test/A'' \<noteq> [] \<and> ''https://a.test/B'' \<noteq> [] \<and> ''{name: Room, url: B}'' \<noteq> []
      \<and> ''{name: Room, url: B}'' \<noteq> ''{}''" by simp
  from extract_all_appends_scripts [of ?L None "''<html></html>''" ?s AttributeError
      "''https://a.test/A''" "''https://a.test/B''" "''{name: Room, url: B}''"] h1 h3
  have r1: "extract_all ?L ''<html></html>'' None = Inr (tier1 ?L ''<html></html>'' None @ ?s)"
    and r3: "urls_of (extract_all ?L ''<html></html>'' None) = Inr [PStr ''https://a.test/A'', PStr ''https://a.test/B'']"
    by blast+
  from extract_all_appends_scripts [of ?M None "''<html></html>''" "[]" AttributeError "[]" "[]" "[]"] h2
  have r2: "extract_all ?M ''<html></html>'' None = Inl AttributeError" by blast
  from r1 r2 r3 show ?thesis by blast
qed

section \<open>Images\<close>



























section \<open>The regex sweep\<close>
















section \<open>A fetch that fails\<close>

lemma extract_and_save_cases:
  obtains store' ns e where "extract_and_save L now store html = (store', ns, Some e)"
  | store' ns where "extract_and_save L now store html = (store', ns, None)"
  by (cases "extract_and_save L now store html"; cases "snd (snd (extract_and_save L now store html))") auto

lemma run_once_returned:
  assumes "target_url \<noteq> []" "make_client cl cookie = Inr ()"
  shows "returned (run_once L cl cookie net now target_url store) = Inr ()"
proof (cases "client_get cl cookie net")
  case (Inl e)
  then show ?thesis using assms by (simp add: run_once_def)
next
  case (Inr html)
  show ?thesis
    by (rule extract_and_save_cases [of L now store html])
      (simp_all add: run_once_def assms Inr)
qed

text \<open>
  C8 does not hold of the code: a 404 answer makes \<open>CurlClient.get\<close> raise, \<open>main\<close> catches
  the exception and logs it, and returns to its caller as it does after a run that found
  and saved an item.
\<close>

theorem run_once_failure_counterexample:
  "run_once (script_with_images (PStr ''/a.jpg'')) Curl NoFile
       (network_of (always 404 ''gone'') (rendered [] True True)) 1 ''https://www.avito.ru/all'' []
     = \<lparr>returned = Inr (), db = [], journal = [Log_failed (HTTPError 404)]\<rparr>
   \<and> returned (run_once (script_with_images (PStr ''/a.jpg'')) Curl NoFile
       (network_of (always 200 ''<html></html>'') (rendered [] True True)) 1 ''https://www.avito.ru/all'' [])
     = Inr ()
   \<and> journal (run_once (script_with_images (PStr ''/a.jpg'')) Curl NoFile
       (network_of (always 200 ''<html></html>'') (rendered [] True True)) 1 ''https://www.avito.ru/all'' [])
     = [Called_extract_all ''<html></html>'', Log_found 1, Log_saved 1]"
proof -
  have m: "make_client Curl NoFile = Inr ()"
    by (simp add: make_client_def CurlClient_init_def CookieStore_load_def default_cookies_def)
  have g4: "client_get Curl NoFile (network_of (always 404 ''gone'') (rendered [] True True))
      = Inl (HTTPError 404)"
    by (simp add: client_get_def network_of_def CurlClient_get_def max_attempts_def always_def upt_rec
        raise_for_status_def)
  have g2: "client_get Curl NoFile (network_of (always 200 ''<html></html>'') (rendered [] True True))
      = Inr ''<html></html>''"
    by (simp add: client_get_def network_of_def CurlClient_get_def max_attempts_def always_def upt_rec)
  have e: "extract_all (script_with_images (PStr ''/a.jpg'')) ''<html></html>'' (Some avito)
      = Inr [[(''title'', PStr ''Room''), (''price'', PNone), (''url'', PStr ''https://www.avito.ru/item/1''),
              (''address'', PNone), (''description'', PNone), (''images'', PList [PStr ''/a.jpg''])]]"
    by (simp add: extract_all_def tier1_def extract_from_soup_def extract_from_scripts_def
      script_with_images_def fixed_library_def empty_soup_def avito_def
      ld_script_def json_table_def graph_entries_def has_key_def flat_entry_def resolve_unchecked_def
      resolve_def dget_def join_address_def py_or_def str_images_def has_title_or_url_def Let_def
      startswith_def)
  let ?item = "[(''title'', PStr ''Room''), (''price'', PNone), (''url'', PStr ''https://www.avito.ru/item/1''),
        (''address'', PNone), (''description'', PNone), (''images'', PList [PStr ''/a.jpg''])]"
  have k: "kept (script_with_images (PStr ''/a.jpg'')) ?item"
    by (simp add: kept_def columns_def script_with_images_def fixed_library_def text_affinity_def
        integer_columns_def dget_def)
  have r: "reconcile [?item] = Inr [?item]"
    by (simp add: reconcile_def reconcile_step_def dget_def)
  obtain rows where p: "persist (script_with_images (PStr ''/a.jpg'')) 1 [] [?item] = (rows, Inr 1)"
    by (simp add: persist_def r upsert_eq_unique [OF _ k])
  show ?thesis
    using p by (simp add: run_once_def m g4 g2 extract_and_save_def e)
qed

text \<open>
  C8, as the code has it. When the fetch of a \<open>run-once\<close> run raises, the exception is
  caught and logged, nothing is extracted or saved, the store is left as it was, and
  \<open>main\<close> returns to its caller; a run that gets as far as the fetch always returns in
  this way, whether it failed or saved items. The fetch raises when the first answer has
  a status that is neither 200/201 nor 403/429/503 and is outside 200..399, and when five
  retryable answers are followed by a browser fetch that raises.
\<close>

theorem run_once_fetch_failure:
  "(target_url \<noteq> [] \<and> make_client cl cookie = Inr () \<and> client_get cl cookie net = Inl e
      \<longrightarrow> run_once L cl cookie net now target_url store
            = \<lparr>returned = Inr (), db = store, journal = [Log_failed e]\<rparr>)
   \<and> (target_url \<noteq> [] \<and> make_client cl cookie = Inr ()
      \<longrightarrow> returned (run_once L cl cookie net now target_url store) = Inr ())
   \<and> (net_server net 1 = Responded status body \<and> \<not> success_status status
        \<and> \<not> retryable_status status \<and> \<not> (200 \<le> status \<and> status < 400)
      \<longrightarrow> client_get Curl cookie net = Inl (HTTPError status))
   \<and> ((\<forall>i. 1 \<le> i \<and> i \<le> 5 \<longrightarrow> retryable (net_server net i))
        \<and> PlaywrightClient_get saved_by_curl (net_browser net) = Inl e
      \<longrightarrow> client_get Curl cookie net = Inl e)"
proof (intro conjI impI)
  assume "target_url \<noteq> [] \<and> make_client cl cookie = Inr () \<and> client_get cl cookie net = Inl e"
  then show "run_once L cl cookie net now target_url store
            = \<lparr>returned = Inr (), db = store, journal = [Log_failed e]\<rparr>"
    by (simp add: run_once_def)
next
  assume "target_url \<noteq> [] \<and> make_client cl cookie = Inr ()"
  then show "returned (run_once L cl cookie net now target_url store) = Inr ()"
    by (simp add: run_once_returned)
next
  assume h: "net_server net 1 = Responded status body \<and> \<not> success_status status
        \<and> \<not> retryable_status status \<and> \<not> (200 \<le> status \<and> status < 400)"
  have "CurlClient_get (net_server net) (net_jitter net) (net_browser net) =
           (concat (map (retried (net_jitter net)) [1..<Suc 0]) @ [Request (Suc 0), SaveCookies],
            if 200 \<le> status \<and> status < 400 then Inr body else Inl (HTTPError status))"
    using h by (intro get_other_after) simp_all
  then show "client_get Curl cookie net = Inl (HTTPError status)"
    using h by (simp add: client_get_def)
next
  assume h: "(\<forall>i. 1 \<le> i \<and> i \<le> 5 \<longrightarrow> retryable (net_server net i))
        \<and> PlaywrightClient_get saved_by_curl (net_browser net) = Inl e"
  then have "CurlClient_get (net_server net) (net_jitter net) (net_browser net) =
           (concat (map (retried (net_jitter net)) [1..<6]) @ [Fallback],
            PlaywrightClient_get saved_by_curl (net_browser net))"
    by (intro get_exhausted) simp
  then show "client_get Curl cookie net = Inl e" using h by (simp add: client_get_def)
qed


theorem run_once_fetch_failure_witness:
  "run_once sweep_only Curl NoFile (network_of (always 404 ''gone'') (rendered [] True True)) 1
       ''https://www.avito.ru/all'' []
     = \<lparr>returned = Inr (), db = [], journal = [Log_failed (HTTPError 404)]\<rparr>
   \<and> run_once sweep_only Curl NoFile (network_of (always 503 ''blocked'') (rendered [] False False)) 1
       ''https://www.avito.ru/all'' []
     = \<lparr>returned = Inr (), db = [], journal = [Log_failed PlaywrightTimeout]\<rparr>"
proof -
  let ?n4 = "network_of (always 404 ''gone'') (rendered [] True True)"
  let ?n5 = "network_of (always 503 ''blocked'') (rendered [] False False)"
  let ?u = "''https://www.avito.ru/all''"
  have m: "?u \<noteq> [] \<and> make_client Curl NoFile = Inr ()"
    by (simp add: make_client_def CurlClient_init_def CookieStore_load_def default_cookies_def)
  have h3: "net_server ?n4 1 = Responded 404 ''gone'' \<and> \<not> success_status 404
        \<and> \<not> retryable_status 404 \<and> \<not> (200 \<le> (404::int) \<and> (404::int) < 400)"
    by (simp add: network_of_def always_def success_status_def retryable_status_def)
  have h4: "(\<forall>i. 1 \<le> i \<and> i \<le> 5 \<longrightarrow> retryable (net_server ?n5 i))
        \<and> PlaywrightClient_get saved_by_curl (net_browser ?n5) = Inl PlaywrightTimeout"
    by (simp add: network_of_def always_def retryable_status_def PlaywrightClient_get_def
        saved_by_curl_def CookieStore_load_def rendered_def wait_for_items_def)
  note T4 = run_once_fetch_failure [of ?u Curl NoFile ?n4 "HTTPError 404" sweep_only 1 "[]" 404 "''gone''"]
  note T5 = run_once_fetch_failure [of ?u Curl NoFile ?n5 PlaywrightTimeout sweep_only 1 "[]" 503 "''blocked''"]
  from T4 h3 have g4: "client_get Curl NoFile ?n4 = Inl (HTTPError 404)" by blast
  from T5 h4 have g5: "client_get Curl NoFile ?n5 = Inl PlaywrightTimeout" by blast
  from T4 m g4 have r4: "run_once sweep_only Curl NoFile ?n4 1 ?u []
     = \<lparr>returned = Inr (), db = [], journal = [Log_failed (HTTPError 404)]\<rparr>" by blast
  from T5 m g5 have r5: "run_once sweep_only Curl NoFile ?n5 1 ?u []
     = \<lparr>returned = Inr (), db = [], journal = [Log_failed PlaywrightTimeout]\<rparr>" by blast
  from r4 r5 show ?thesis by blast
qed

section \<open>Persisting twice\<close>

lemma persist_unique:
  assumes "distinct (map r_url store)" "\<forall>c\<in>set items. hashable (dget c ''url'')"
    "\<forall>c\<in>set items. kept L c"
  shows "persist L now store items
     = (foldl (upsert_unique L now) store (reconcile_spec items), Inr (length (reconcile_spec items)))"
proof -
  have "\<forall>w\<in>set (reconcile_spec items). kept L w"
    using assms(3) reconcile_spec_subset by blast
  then show ?thesis
    using assms(1,2) by (simp add: persist_def reconcile_eq_spec upsert_all_eq_foldl)
qed

lemma persist_holds:
  assumes "distinct (map r_url store)" "\<forall>c\<in>set items. hashable (dget c ''url'')"
    "\<forall>c\<in>set items. kept L c"
    and "w \<in> set (reconcile_spec items)"
  shows "holds L (fst (persist L now store items)) w"
proof -
  have "distinct (map (\<lambda>w. dget w ''url'') (reconcile_spec items))"
    by (simp only: urls_of_reconcile_spec distinct_urls_in_order)
  then have "holds L (foldl (upsert_unique L now) store (reconcile_spec items)) w"
    using assms(4) by (rule holds_foldl)
  then show ?thesis using assms by (simp add: persist_unique)
qed

lemma persist_again:
  assumes "distinct (map r_url store)" "\<forall>c\<in>set items. hashable (dget c ''url'')"
    "\<forall>c\<in>set items. kept L c"
  shows "persist L t2 (fst (persist L t1 store items)) items
     = (fst (persist L t1 store items), Inr (length (reconcile_spec items)))"
proof -
  let ?s1 = "fst (persist L t1 store items)"
  have s1: "?s1 = foldl (upsert_unique L t1) store (reconcile_spec items)"
    using assms by (simp add: persist_unique)
  have d: "distinct (map r_url ?s1)"
    unfolding s1 using assms(1) by (rule distinct_foldl_upsert)
  have "\<forall>w\<in>set (reconcile_spec items). holds L ?s1 w"
    using assms persist_holds by blast
  then have "foldl (upsert_unique L t2) ?s1 (reconcile_spec items) = ?s1"
    by (rule foldl_upsert_idle)
  then show ?thesis using persist_unique [OF d assms(2,3), of t2] by simp
qed

lemma kept_room: "kept plain_library room"
  by (simp add: kept_def columns_def plain_library_def fixed_library_def text_affinity_def
      integer_columns_def room_def dget_def)

text \<open>
  C7 does not hold of the code: the same candidate persisted at time 1 and again at time
  2 leaves one row, whose \<open>updated_at\<close> is still 1. The second run assigns to every column
  the value it already has, so no UPDATE is emitted and \<open>onupdate\<close> does not fire.
\<close>

theorem persist_twice_counterexample:
  "map updated_at (fst (persist plain_library 1 [] [room])) = [1]
   \<and> map updated_at (fst (persist plain_library 2 (fst (persist plain_library 1 [] [room])) [room])) = [1]
   \<and> map created_at (fst (persist plain_library 2 (fst (persist plain_library 1 [] [room])) [room])) = [1]
   \<and> snd (persist plain_library 2 (fst (persist plain_library 1 [] [room])) [room]) = Inr 1"
proof -
  let ?row = "\<lparr>r_url = dget room ''url'', r_columns = columns plain_library room,
    created_at = 1, updated_at = 1\<rparr>"
  have r: "reconcile [room] = Inr [room]"
    by (simp add: reconcile_def reconcile_step_def room_def dget_def)
  have p1: "persist plain_library 1 [] [room] = ([?row], Inr 1)"
    by (simp add: persist_def r upsert_eq_unique [OF _ kept_room] upsert_unique_def)
  have p2: "persist plain_library 2 [?row] [room] = ([?row], Inr 1)"
    by (simp add: persist_def r upsert_eq_unique [OF _ kept_room] upsert_unique_def update_row_def
        unchanged_self)
  show ?thesis unfolding p1 fst_conv p2 snd_conv by simp
qed


lemma created_at_upsert_unique:
  "map created_at (upsert_unique L now rows data)
     = map created_at rows @ (if dget data ''url'' \<in> r_url ` set rows then [] else [now])"
  by (simp add: upsert_unique_def created_at_update_row comp_def if_distrib [of created_at] cong: if_cong)

lemma created_at_foldl_upsert:
  "take (length rows) (map created_at (foldl (upsert_unique L now) rows ws)) = map created_at rows"
proof (induction ws arbitrary: rows)
  case Nil
  show ?case by simp
next
  case (Cons w ws)
  let ?r = "upsert_unique L now rows w"
  have le: "length rows \<le> length ?r" by (simp add: upsert_unique_def)
  have "take (length rows) (map created_at (foldl (upsert_unique L now) ?r ws))
      = take (length rows) (take (length ?r) (map created_at (foldl (upsert_unique L now) ?r ws)))"
    using le by (simp add: min_def)
  also have "\<dots> = take (length rows) (map created_at ?r)" by (simp only: Cons)
  also have "\<dots> = map created_at rows" by (simp add: created_at_upsert_unique)
  finally show ?case by simp
qed

text \<open>
  C7, as the code has it. For candidates whose values the database keeps as they are, on
  a store in which no two rows have the same url: reconciling and persisting a set of
  candidates, and then the same set again, leaves exactly one row for every url, the urls
  of the store and those of the candidates; the row of a kept candidate has the
  candidate's value in every data column; the rows that were stored before keep their
  \<open>created_at\<close>; and the second run changes nothing: every row, with its \<open>created_at\<close>
  and its \<open>updated_at\<close>, is as the first run left it. An upsert of a url that is stored
  assigns the candidate's values to every data column, keeps \<open>created_at\<close>, and sets
  \<open>updated_at\<close> to the time of the upsert only when the value of a column changes; an
  upsert of a new url adds a row with both timestamps at that time. A value the database
  does not take raises, and the run leaves the store as it was.
\<close>

theorem persist_twice_same_store:
  "(distinct (map r_url store) \<and> (\<forall>c\<in>set items. hashable (dget c ''url''))
      \<and> (\<forall>c\<in>set items. kept L c)
      \<longrightarrow> persist L t1 store items
            = (fst (persist L t1 store items), Inr (length (reconcile_spec items)))
          \<and> persist L t2 (fst (persist L t1 store items)) items
            = (fst (persist L t1 store items), Inr (length (reconcile_spec items)))
          \<and> distinct (map r_url (fst (persist L t1 store items)))
          \<and> set (map r_url (fst (persist L t1 store items)))
            = set (map r_url store) \<union> set (urls_in_order items)
          \<and> take (length store) (map created_at (fst (persist L t1 store items)))
            = map created_at store
          \<and> (\<forall>w\<in>set (reconcile_spec items). \<forall>r\<in>set (fst (persist L t1 store items)).
                r_url r = dget w ''url'' \<longrightarrow> unchanged (r_columns r) (columns L w)))
   \<and> (distinct (map r_url rows) \<and> kept L data \<and> obj \<in> set rows \<and> r_url obj = dget data ''url''
      \<longrightarrow> upsert L now rows data
            = Inr (map (\<lambda>r. if r_url r = dget data ''url''
                             then (if unchanged (r_columns r) (columns L data) then r
                                   else r\<lparr>r_columns := columns L data, updated_at := now\<rparr>)
                             else r) rows))
   \<and> (kept L data \<and> dget data ''url'' \<notin> r_url ` set rows
      \<longrightarrow> upsert L now rows data
            = Inr (rows @ [\<lparr>r_url = dget data ''url'', r_columns = columns L data,
                             created_at = now, updated_at = now\<rparr>]))
   \<and> (assign L now data obj = Inr obj'
      \<longrightarrow> r_url obj' = r_url obj \<and> created_at obj' = created_at obj
          \<and> updated_at obj'
              = (if unchanged (r_columns obj) (columns L data) then updated_at obj else now))
   \<and> (db_bind L ''url'' (dget data ''url'') = Inl e \<longrightarrow> upsert L now rows data = Inl e)
   \<and> (reconcile items = Inr ws \<and> upsert_all L now store ws = Inl e
      \<longrightarrow> persist L now store items = (store, Inl e))"
proof (intro conjI impI)
  assume h: "distinct (map r_url store) \<and> (\<forall>c\<in>set items. hashable (dget c ''url''))
      \<and> (\<forall>c\<in>set items. kept L c)"
  then have d: "distinct (map r_url store)" and hs: "\<forall>c\<in>set items. hashable (dget c ''url'')"
    and k: "\<forall>c\<in>set items. kept L c"
    by simp_all
  have s1: "fst (persist L t1 store items) = foldl (upsert_unique L t1) store (reconcile_spec items)"
    using d hs k by (simp add: persist_unique)
  show "persist L t1 store items = (fst (persist L t1 store items), Inr (length (reconcile_spec items)))"
    using d hs k by (simp add: persist_unique)
  show "persist L t2 (fst (persist L t1 store items)) items
      = (fst (persist L t1 store items), Inr (length (reconcile_spec items)))"
    using d hs k by (rule persist_again)
  show "distinct (map r_url (fst (persist L t1 store items)))"
    unfolding s1 using d by (rule distinct_foldl_upsert)
  have "set (map r_url (fst (persist L t1 store items)))
      = set (map r_url store) \<union> set (map (\<lambda>w. dget w ''url'') (reconcile_spec items))"
    unfolding s1 using urls_foldl_upsert [of L t1 store "reconcile_spec items"] by simp
  then show "set (map r_url (fst (persist L t1 store items)))
      = set (map r_url store) \<union> set (urls_in_order items)"
    by (simp only: urls_of_reconcile_spec)
  show "take (length store) (map created_at (fst (persist L t1 store items))) = map created_at store"
    unfolding s1 by (rule created_at_foldl_upsert)
  show "\<forall>w\<in>set (reconcile_spec items). \<forall>r\<in>set (fst (persist L t1 store items)).
      r_url r = dget w ''url'' \<longrightarrow> unchanged (r_columns r) (columns L w)"
    using persist_holds [OF d hs k, of _ t1] by (auto simp: holds_def)
next
  assume h: "distinct (map r_url rows) \<and> kept L data \<and> obj \<in> set rows \<and> r_url obj = dget data ''url''"
  then have "dget data ''url'' \<in> r_url ` set rows" by (auto intro: rev_image_eqI)
  then show "upsert L now rows data
      = Inr (map (\<lambda>r. if r_url r = dget data ''url''
                       then (if unchanged (r_columns r) (columns L data) then r
                             else r\<lparr>r_columns := columns L data, updated_at := now\<rparr>)
                       else r) rows)"
    using h by (simp add: upsert_eq_unique upsert_unique_def update_row_def)
next
  assume h: "kept L data \<and> dget data ''url'' \<notin> r_url ` set rows"
  then have f: "filter (\<lambda>r. r_url r = dget data ''url'') rows = []"
    by (auto simp: filter_empty_conv intro: rev_image_eqI)
  have b: "db_bind L ''url'' (dget data ''url'') = Inr (dget data ''url'')"
    using h by (simp add: kept_def)
  show "upsert L now rows data
      = Inr (rows @ [\<lparr>r_url = dget data ''url'', r_columns = columns L data,
                       created_at = now, updated_at = now\<rparr>])"
    using h by (simp add: upsert_def b f new_row_kept)
next
  assume a: "assign L now data obj = Inr obj'"
  show "r_url obj' = r_url obj" using a by (auto simp: assign_def split: if_splits sum.splits)
  show "created_at obj' = created_at obj" using a by (auto simp: assign_def split: if_splits sum.splits)
  show "updated_at obj' = (if unchanged (r_columns obj) (columns L data) then updated_at obj else now)"
    using a by (auto simp: assign_def split: if_splits sum.splits)
next
  assume "db_bind L ''url'' (dget data ''url'') = Inl e"
  then show "upsert L now rows data = Inl e" by (simp add: upsert_def)
next
  assume "reconcile items = Inr ws \<and> upsert_all L now store ws = Inl e"
  then show "persist L now store items = (store, Inl e)" by (simp add: persist_def)
qed


theorem persist_twice_same_store_witness:
  "persist plain_library 2 (fst (persist plain_library 1 [] [room])) [room]
     = (fst (persist plain_library 1 [] [room]), Inr 1)
   \<and> set (map r_url (fst (persist plain_library 1 [] [room]))) = {PStr ''https://www.avito.ru/item/1''}
   \<and> upsert plain_library 1 [] room
       = Inr [\<lparr>r_url = PStr ''https://www.avito.ru/item/1'', r_columns = columns plain_library room,
                created_at = 1, updated_at = 1\<rparr>]
   \<and> upsert plain_library 5
         [\<lparr>r_url = PStr ''https://www.avito.ru/item/1'', r_columns = columns plain_library room,
            created_at = 1, updated_at = 1\<rparr>] room_repriced
       = Inr [\<lparr>r_url = PStr ''https://www.avito.ru/item/1'', r_columns = columns plain_library room_repriced,
                created_at = 1, updated_at = 5\<rparr>]
   \<and> assign plain_library 2 numbered
         \<lparr>r_url = PStr ''https://www.avito.ru/item/2'',
          r_columns = (columns plain_library numbered)[0 := (''title'', PStr ''123'')],
          created_at = 1, updated_at = 1\<rparr>
       = Inr \<lparr>r_url = PStr ''https://www.avito.ru/item/2'',
               r_columns = (columns plain_library numbered)[0 := (''title'', PStr ''123'')],
               created_at = 1, updated_at = 2\<rparr>
   \<and> upsert plain_library 1 [] listed_url = Inl ProgrammingError
   \<and> persist plain_library 1 [] [overpriced] = ([], Inl OverflowError)"
proof -
  let ?u = "PStr ''https://www.avito.ru/item/1''"
  let ?row = "\<lparr>r_url = ?u, r_columns = columns plain_library room, created_at = 1, updated_at = 1\<rparr>"
  let ?rowN = "\<lparr>r_url = PStr ''https://www.avito.ru/item/2'',
          r_columns = (columns plain_library numbered)[0 := (''title'', PStr ''123'')],
          created_at = 1, updated_at = 1\<rparr>"
  have u: "dget room ''url'' = ?u" "dget room_repriced ''url'' = ?u"
    by (simp_all add: room_def room_repriced_def dget_def)
  have k2: "kept plain_library room_repriced"
    by (simp add: kept_def columns_def plain_library_def fixed_library_def text_affinity_def
      integer_columns_def room_repriced_def dget_def)
  have h1: "distinct (map r_url ([] :: row list)) \<and> (\<forall>c\<in>set [room]. hashable (dget c ''url''))
      \<and> (\<forall>c\<in>set [room]. kept plain_library c)"
    by (simp add: u kept_room)
  have h2: "distinct (map r_url [?row]) \<and> kept plain_library room_repriced \<and> ?row \<in> set [?row]
      \<and> r_url ?row = dget room_repriced ''url''"
    by (simp add: u k2)
  have h3: "kept plain_library room \<and> dget room ''url'' \<notin> r_url ` set ([] :: row list)"
    by (simp add: kept_room)
  have s123: "show_int 123 = ''123''" by code_simp
  have h4: "assign plain_library 2 numbered ?rowN = Inr (?rowN\<lparr>updated_at := 2\<rparr>)"
    by (simp add: assign_def unchanged_def columns_def numbered_def dget_def plain_library_def
        fixed_library_def text_affinity_def integer_columns_def s123)
  have h5: "db_bind plain_library ''url'' (dget listed_url ''url'') = Inl ProgrammingError"
    by (simp add: plain_library_def fixed_library_def text_affinity_def listed_url_def dget_def)
  have h6: "reconcile [overpriced] = Inr [overpriced]
      \<and> upsert_all plain_library 1 [] [overpriced] = Inl OverflowError"
    by (simp add: reconcile_def reconcile_step_def overpriced_def dget_def upsert_def new_row_def
        columns_def plain_library_def fixed_library_def text_affinity_def integer_columns_def)
  have us: "urls_in_order [room] = [?u]"
    by (simp add: urls_in_order_def with_url_def u)
  have n: "length (reconcile_spec [room]) = 1"
    by (simp add: reconcile_spec_def us)
  have ch: "\<not> unchanged (r_columns ?row) (columns plain_library room_repriced)"
    by (simp add: unchanged_def columns_def room_def room_repriced_def dget_def)
  have chN: "\<not> unchanged (r_columns ?rowN) (columns plain_library numbered)"
    by (simp add: unchanged_def columns_def numbered_def dget_def)
  note T1 = persist_twice_same_store [where store="[]" and items="[room]" and L=plain_library
      and ?t1.0=1 and ?t2.0=2 and rows="[?row]" and data=room_repriced and obj="?row" and now=5]
  note T2 = persist_twice_same_store [where L=plain_library and rows="[]" and data=room and now=1]
  note T3 = persist_twice_same_store [where L=plain_library and data=numbered and obj="?rowN" and now=2
      and obj'="?rowN\<lparr>updated_at := 2\<rparr>"]
  note T4 = persist_twice_same_store [where L=plain_library and data=listed_url and rows="[]" and now=1
      and e=ProgrammingError]
  note T5 = persist_twice_same_store [where L=plain_library and store="[]" and items="[overpriced]"
      and now=1 and ws="[overpriced]" and e=OverflowError]
  from T1 h1 have r1: "persist plain_library 2 (fst (persist plain_library 1 [] [room])) [room]
     = (fst (persist plain_library 1 [] [room]), Inr (length (reconcile_spec [room])))"
    and r2: "set (map r_url (fst (persist plain_library 1 [] [room])))
       = set (map r_url ([] :: row list)) \<union> set (urls_in_order [room])"
    by blast+
  from T2 h3 have r3: "upsert plain_library 1 [] room
     = Inr ([] @ [\<lparr>r_url = dget room ''url'', r_columns = columns plain_library room,
                     created_at = 1, updated_at = 1\<rparr>])"
    by blast
  from T1 h2 have r4: "upsert plain_library 5 [?row] room_repriced
     = Inr (map (\<lambda>r. if r_url r = dget room_repriced ''url''
                      then (if unchanged (r_columns r) (columns plain_library room_repriced) then r
                            else r\<lparr>r_columns := columns plain_library room_repriced, updated_at := 5\<rparr>)
                      else r) [?row])"
    by blast
  from T3 h4 have r5: "updated_at (?rowN\<lparr>updated_at := 2\<rparr>)
      = (if unchanged (r_columns ?rowN) (columns plain_library numbered) then updated_at ?rowN else 2)"
    by blast
  from T4 h5 have r6: "upsert plain_library 1 [] listed_url = Inl ProgrammingError" by blast
  from T5 h6 have r7: "persist plain_library 1 [] [overpriced] = ([], Inl OverflowError)" by blast
  from r1 have r1': "persist plain_library 2 (fst (persist plain_library 1 [] [room])) [room]
     = (fst (persist plain_library 1 [] [room]), Inr 1)" by (simp only: n)
  from r2 have r2': "set (map r_url (fst (persist plain_library 1 [] [room]))) = {?u}"
    by (simp only: us) simp
  from r3 have r3': "upsert plain_library 1 [] room = Inr [?row]"
    by (simp only: u append_Nil)
  from r4 have r4': "upsert plain_library 5 [?row] room_repriced
       = Inr [\<lparr>r_url = ?u, r_columns = columns plain_library room_repriced,
                created_at = 1, updated_at = 5\<rparr>]"
    using ch by (simp add: u)
  have r5': "assign plain_library 2 numbered ?rowN
       = Inr \<lparr>r_url = PStr ''https://www.avito.ru/item/2'',
               r_columns = (columns plain_library numbered)[0 := (''title'', PStr ''123'')],
               created_at = 1, updated_at = 2\<rparr>"
    using h4 r5 by simp
  from r1' r2' r3' r4' r5' r6 r7 show ?thesis by blast
qed

end
